theory Spec2Isabelle
  imports Main "HOL-Library.Word" "HOL-Library.Signed_Division"
begin

section \<open>Go integers\<close>

text \<open>
  Go's \<open>int\<close> is a two's-complement machine integer; on the 64-bit targets this
  collector is built for it has 64 bits.  Addition and multiplication wrap around, and the
  quotient \<open>/\<close> truncates towards zero (it does not round towards minus infinity as
  \<open>div\<close> on HOL's \<open>int\<close> does).  Division by zero panics in Go; every
  division of the program is guarded, which the lemma \<open>coverage_divisor_nonzero\<close>
  below establishes for the one guard that is not literally on the divisor.
\<close>

type_synonym go_int = "64 word"

definition go_quot :: "go_int \<Rightarrow> go_int \<Rightarrow> go_int" where
  "go_quot a b = word_of_int (sint a sdiv sint b)"

section \<open>constants.go\<close>

definition DefaultIncludePattern :: string where
  "DefaultIncludePattern = ''*''"

definition NumSecurityFeatures :: go_int where
  "NumSecurityFeatures = 5"

definition MaxPercentage :: go_int where
  "MaxPercentage = 100"

section \<open>The posture calculator: \<open>percent\<close>\<close>

text \<open>
  \<^verbatim>\<open>
  func percent(count, total int) int {
      if total == 0 { return 0 }
      return (count * MaxPercentage) / total
  }
  \<close>
\<close>

definition percent :: "go_int \<Rightarrow> go_int \<Rightarrow> go_int" where
  "percent count total' =
     (if total' = 0 then 0 else go_quot (count * MaxPercentage) total')"

section \<open>The regular expressions that \<open>MatchesPattern\<close> hands to Go's regexp package\<close>

text \<open>
  A Go string is modelled as the sequence of runes that \<open>range\<close> yields and that the
  regexp engine steps over; one \<open>char\<close> stands for one rune.

  The package \<open>regexp\<close> belongs to Go's standard library.  It is modelled for the
  fragment of its syntax that the glob translation can emit: the anchors \<open>^\<close> and
  \<open>$\<close> (without the flag \<open>m\<close> they match at the beginning and at the end
  of the text only), the dot (without the flag \<open>s\<close> it matches every character
  except the newline), a literal character, a backslash followed by an ASCII character that
  is neither a letter nor a digit (that character, literally), and the star after a dot or a
  literal.  \<open>Compile\<close> answers \<open>None\<close> where \<open>regexp.Compile\<close>
  reports an error (a star with nothing to repeat, a trailing backslash) and for every
  expression outside this fragment.  Strings that are not valid UTF-8 and the limit that
  \<open>regexp.Compile\<close> puts on the size of an expression are not modelled.
\<close>

datatype atom = Literal char | AnyCharNotNL

datatype inst = BeginText | EndText | One atom | Star atom

definition newline :: char where
  "newline = CHR 0x0A"

definition backslash :: char where
  "backslash = CHR 0x5C"

definition isalnum :: "char \<Rightarrow> bool" where
  "isalnum c =
     (c \<in> set ''0123456789ABCDEFGHIJKLMNOPQRSTUVWXYZabcdefghijklmnopqrstuvwxyz'')"

definition escapable :: "char \<Rightarrow> bool" where
  "escapable c = ((of_char c :: nat) < 128 \<and> \<not> isalnum c)"

definition operators :: "char list" where
  "operators = ''*+?()[]{}|''"

function parse :: "atom option \<Rightarrow> string \<Rightarrow> inst list option" where
  "parse None [] = Some []"
| "parse (Some a) [] = Some [One a]"
| "parse (Some a) (c # cs) =
     (if c = CHR ''*'' then map_option ((#) (Star a)) (parse None cs)
      else map_option ((#) (One a)) (parse None (c # cs)))"
| "parse None (c # cs) =
     (if c = CHR ''^'' then map_option ((#) BeginText) (parse None cs)
      else if c = CHR ''$'' then map_option ((#) EndText) (parse None cs)
      else if c = CHR ''.'' then parse (Some AnyCharNotNL) cs
      else if c = backslash then
        (case cs of
           [] \<Rightarrow> None
         | e # es \<Rightarrow> if escapable e then parse (Some (Literal e)) es else None)
      else if c \<in> set operators then None
      else parse (Some (Literal c)) cs)"
  by pat_completeness auto
termination
  by (relation "measure (\<lambda>(pending, s). 2 * length s + (case pending of None \<Rightarrow> 0 | Some _ \<Rightarrow> 1))")
    auto

definition Compile :: "string \<Rightarrow> inst list option" where
  "Compile expr = parse None expr"

fun accepts :: "atom \<Rightarrow> char \<Rightarrow> bool" where
  "accepts (Literal c) x = (x = c)"
| "accepts AnyCharNotNL x = (x \<noteq> newline)"

text \<open>
  \<open>matchHere rs atStart s\<close>: the instructions \<open>rs\<close> match a prefix of the
  remaining text \<open>s\<close>; \<open>atStart\<close> tells whether \<open>s\<close> is the whole text.
\<close>

fun matchHere :: "inst list \<Rightarrow> bool \<Rightarrow> string \<Rightarrow> bool" where
  "matchHere [] atStart s = True"
| "matchHere (BeginText # rs) atStart s = (atStart \<and> matchHere rs atStart s)"
| "matchHere (EndText # rs) atStart s = (s = [] \<and> matchHere rs atStart s)"
| "matchHere (One a # rs) atStart s =
     (case s of [] \<Rightarrow> False | x # xs \<Rightarrow> accepts a x \<and> matchHere rs False xs)"
| "matchHere (Star a # rs) atStart s =
     (matchHere rs atStart s \<or>
      (case s of [] \<Rightarrow> False | x # xs \<Rightarrow> accepts a x \<and> matchHere (Star a # rs) False xs))"

text \<open>\<open>MatchString\<close> reports whether the text contains any match: it tries every start.\<close>

definition MatchString :: "inst list \<Rightarrow> string \<Rightarrow> bool" where
  "MatchString re s =
     list_ex (\<lambda>i. matchHere re (i = 0) (drop i s)) [0 ..< Suc (length s)]"

section \<open>The pattern matcher and the scope filter\<close>

text \<open>
  \<^verbatim>\<open>
  for _, char := range pattern {
      switch char {
      case '*': regexPattern.WriteString(".*")
      case '?': regexPattern.WriteString(".")
      case '.', '+', '^', '$', '{', '}', '(', ')', '|', '[', ']', '\\':
          regexPattern.WriteRune('\\'); regexPattern.WriteRune(char)
      default:  regexPattern.WriteRune(char)
      }
  }
  \<close>
\<close>

definition regexSpecial :: "char list" where
  "regexSpecial =
     [CHR ''.'', CHR ''+'', CHR ''^'', CHR ''$'', CHR ''{'', CHR ''}'', CHR ''('', CHR '')'',
      CHR ''|'', CHR ''['', CHR '']'', backslash]"

definition writeChar :: "char \<Rightarrow> string" where
  "writeChar c =
     (if c = CHR ''*'' then ''.*''
      else if c = CHR ''?'' then ''.''
      else if c \<in> set regexSpecial then [backslash, c]
      else [c])"

definition regexPattern :: "string \<Rightarrow> string" where
  "regexPattern pattern = ''^'' @ concat (map writeChar pattern) @ ''$''"

definition MatchesPattern :: "string \<Rightarrow> string \<Rightarrow> bool" where
  "MatchesPattern nm pattern =
     (if pattern = ''*'' then True
      else case Compile (regexPattern pattern) of
             None \<Rightarrow> False
           | Some re \<Rightarrow> MatchString re nm)"

text \<open>The two loops of \<open>ShouldIncludeRepo\<close> leave at the first pattern that matches.\<close>

fun matchesAny :: "string \<Rightarrow> string list \<Rightarrow> bool" where
  "matchesAny repoName [] = False"
| "matchesAny repoName (pattern # patterns) =
     (if MatchesPattern repoName pattern then True else matchesAny repoName patterns)"

definition ShouldIncludeRepo :: "string \<Rightarrow> string list \<Rightarrow> string list \<Rightarrow> bool" where
  "ShouldIncludeRepo repoName includePatterns excludePatterns =
     (if matchesAny repoName excludePatterns then False
      else if matchesAny repoName includePatterns then True
      else False)"

text \<open>
  The glob relation in the words of the specification: the whole name is matched, a
  \<open>*\<close> stands for any run of characters, a \<open>?\<close> for exactly one character,
  every other character for itself.
\<close>

fun glob :: "string \<Rightarrow> string \<Rightarrow> bool" where
  "glob [] s = (s = [])"
| "glob (p # ps) [] = (p = CHR ''*'' \<and> glob ps [])"
| "glob (p # ps) (x # xs) =
     (if p = CHR ''*'' then glob ps (x # xs) \<or> glob (p # ps) xs
      else (p = CHR ''?'' \<or> p = x) \<and> glob ps xs)"

text \<open>
  The relation that the translated expression decides: as \<open>glob\<close>, but neither
  wildcard takes a newline.
\<close>

fun globLine :: "string \<Rightarrow> string \<Rightarrow> bool" where
  "globLine [] s = (s = [])"
| "globLine (p # ps) [] = (p = CHR ''*'' \<and> globLine ps [])"
| "globLine (p # ps) (x # xs) =
     (if p = CHR ''*'' then globLine ps (x # xs) \<or> (x \<noteq> newline \<and> globLine (p # ps) xs)
      else if p = CHR ''?'' then x \<noteq> newline \<and> globLine ps xs
      else p = x \<and> globLine ps xs)"

section \<open>The data fetched from GitHub (package github)\<close>

text \<open>The anonymous structs \<open>Owner\<close> and \<open>DefaultBranchRef\<close> are flattened.\<close>

record BranchProtectionRule =
  RequiresApprovingReviews :: bool
  RequiredApprovingReviewCount :: go_int
  DismissesStaleReviews :: bool
  RequiresCodeOwnerReviews :: bool
  RequiresStatusChecks :: bool
  RequiresCommitSignatures :: bool
  IsAdminEnforced :: bool

record Repository =
  Name :: string
  Owner_Login :: string
  Visibility :: string
  DefaultBranchRef_Name :: string
  DefaultBranchRef_BranchProtectionRule :: "BranchProtectionRule option"
  HasVulnerabilityAlertsEnabled :: bool

record SecuritySettings =
  SecretScanning :: bool
  SecretScanningPushProtection :: bool
  DependabotSecurityUpdates :: bool
  CodeScanningEnabled :: bool

text \<open>\<open>TwoFactorRequired\<close> is a \<open>*bool\<close>: \<open>nil\<close> is \<open>None\<close>.\<close>

record OrgSecurity =
  TwoFactorRequired :: "bool option"

section \<open>The metrics aggregator\<close>

record repoInfo =
  owner :: string
  name :: string

record metricsAggregator =
  totalRepos :: go_int
  excludedRepos :: go_int
  repos :: "repoInfo list"
  branchProtectionEnabled :: go_int
  requirePullRequest :: go_int
  requireApprovingReviews :: go_int
  dismissStaleReviews :: go_int
  requireCodeOwnerReviews :: go_int
  requireStatusChecks :: go_int
  requireSignedCommits :: go_int
  enforceAdmins :: go_int
  vulnerabilityAlertsEnabled :: go_int
  codeScanningEnabled :: go_int
  secretScanningEnabled :: go_int
  secretScanningPushProtection :: go_int
  dependabotSecurityUpdatesEnabled :: go_int

text \<open>\<open>&metricsAggregator{}\<close>: every field has its zero value.\<close>

definition newMetricsAggregator :: metricsAggregator where
  "newMetricsAggregator =
     \<lparr>totalRepos = 0, excludedRepos = 0, repos = [],
      branchProtectionEnabled = 0, requirePullRequest = 0, requireApprovingReviews = 0,
      dismissStaleReviews = 0, requireCodeOwnerReviews = 0, requireStatusChecks = 0,
      requireSignedCommits = 0, enforceAdmins = 0,
      vulnerabilityAlertsEnabled = 0, codeScanningEnabled = 0, secretScanningEnabled = 0,
      secretScanningPushProtection = 0, dependabotSecurityUpdatesEnabled = 0\<rparr>"

definition countBranchProtection :: "metricsAggregator \<Rightarrow> Repository \<Rightarrow> metricsAggregator" where
  "countBranchProtection m repo =
     (case DefaultBranchRef_BranchProtectionRule repo of
        None \<Rightarrow> m
      | Some bp \<Rightarrow>
          let m1 = m\<lparr>branchProtectionEnabled := branchProtectionEnabled m + 1\<rparr>;
              m2 = (if RequiresApprovingReviews bp
                    then m1\<lparr>requirePullRequest := requirePullRequest m1 + 1,
                            requireApprovingReviews := requireApprovingReviews m1 + 1\<rparr>
                    else m1);
              m3 = (if DismissesStaleReviews bp
                    then m2\<lparr>dismissStaleReviews := dismissStaleReviews m2 + 1\<rparr> else m2);
              m4 = (if RequiresCodeOwnerReviews bp
                    then m3\<lparr>requireCodeOwnerReviews := requireCodeOwnerReviews m3 + 1\<rparr> else m3);
              m5 = (if RequiresStatusChecks bp
                    then m4\<lparr>requireStatusChecks := requireStatusChecks m4 + 1\<rparr> else m4);
              m6 = (if RequiresCommitSignatures bp
                    then m5\<lparr>requireSignedCommits := requireSignedCommits m5 + 1\<rparr> else m5)
          in if IsAdminEnforced bp
             then m6\<lparr>enforceAdmins := enforceAdmins m6 + 1\<rparr> else m6)"

definition processRepository ::
  "metricsAggregator \<Rightarrow> Repository \<Rightarrow> string list \<Rightarrow> string list \<Rightarrow> metricsAggregator" where
  "processRepository m repo includePatterns excludePatterns =
     (if \<not> ShouldIncludeRepo (Name repo) includePatterns excludePatterns
      then m\<lparr>excludedRepos := excludedRepos m + 1\<rparr>
      else
        let m1 = m\<lparr>totalRepos := totalRepos m + 1\<rparr>;
            m2 = m1\<lparr>repos := repos m1 @ [\<lparr>owner = Owner_Login repo, name = Name repo\<rparr>]\<rparr>;
            m3 = countBranchProtection m2 repo
        in if HasVulnerabilityAlertsEnabled repo
           then m3\<lparr>vulnerabilityAlertsEnabled := vulnerabilityAlertsEnabled m3 + 1\<rparr>
           else m3)"

definition countSecuritySettings :: "metricsAggregator \<Rightarrow> SecuritySettings \<Rightarrow> metricsAggregator" where
  "countSecuritySettings m settings =
     (let m1 = (if CodeScanningEnabled settings
                then m\<lparr>codeScanningEnabled := codeScanningEnabled m + 1\<rparr> else m);
          m2 = (if SecretScanning settings
                then m1\<lparr>secretScanningEnabled := secretScanningEnabled m1 + 1\<rparr> else m1);
          m3 = (if SecretScanningPushProtection settings
                then m2\<lparr>secretScanningPushProtection := secretScanningPushProtection m2 + 1\<rparr>
                else m2)
      in if DependabotSecurityUpdates settings
         then m3\<lparr>dependabotSecurityUpdatesEnabled := dependabotSecurityUpdatesEnabled m3 + 1\<rparr>
         else m3)"

definition securityFeaturesCoverage :: "metricsAggregator \<Rightarrow> go_int" where
  "securityFeaturesCoverage m =
     (if totalRepos m = 0 then 0
      else
        let total' = vulnerabilityAlertsEnabled m + codeScanningEnabled m +
                     secretScanningEnabled m + secretScanningPushProtection m +
                     dependabotSecurityUpdatesEnabled m
        in go_quot (total' * MaxPercentage) (totalRepos m * NumSecurityFeatures))"

section \<open>The report\<close>

text \<open>The fields of the report carry the names of their JSON tags.\<close>

record Scope =
  include_patterns :: "string list"
  exclude_patterns :: "string list"
  repositories_coverage :: go_int

record Posture =
  branch_protection_coverage :: go_int
  security_features_coverage :: go_int

record AccessControl =
  two_factor_required :: "bool option"

record BranchProtectionRules =
  pull_request_required :: go_int
  approving_reviews :: go_int
  dismiss_stale_reviews :: go_int
  code_owner_reviews :: go_int
  status_checks :: go_int
  signed_commits :: go_int
  admin_enforcement :: go_int

record SecurityFeatures =
  vulnerability_alerts :: go_int
  code_scanning :: go_int
  secret_scanning :: go_int
  secret_scanning_push_protection :: go_int
  dependabot_security_updates :: go_int

record OrgPosture =
  schema_version :: string
  collected_at :: string
  organization :: string
  scope :: Scope
  posture :: Posture
  access_control :: AccessControl
  branch_protection_rules :: BranchProtectionRules
  security_features :: SecurityFeatures

definition toBranchProtectionRules :: "metricsAggregator \<Rightarrow> BranchProtectionRules" where
  "toBranchProtectionRules m =
     \<lparr>pull_request_required = percent (requirePullRequest m) (totalRepos m),
      approving_reviews = percent (requireApprovingReviews m) (totalRepos m),
      dismiss_stale_reviews = percent (dismissStaleReviews m) (totalRepos m),
      code_owner_reviews = percent (requireCodeOwnerReviews m) (totalRepos m),
      status_checks = percent (requireStatusChecks m) (totalRepos m),
      signed_commits = percent (requireSignedCommits m) (totalRepos m),
      admin_enforcement = percent (enforceAdmins m) (totalRepos m)\<rparr>"

definition toSecurityFeatures :: "metricsAggregator \<Rightarrow> SecurityFeatures" where
  "toSecurityFeatures m =
     \<lparr>vulnerability_alerts = percent (vulnerabilityAlertsEnabled m) (totalRepos m),
      code_scanning = percent (codeScanningEnabled m) (totalRepos m),
      secret_scanning = percent (secretScanningEnabled m) (totalRepos m),
      secret_scanning_push_protection = percent (secretScanningPushProtection m) (totalRepos m),
      dependabot_security_updates = percent (dependabotSecurityUpdatesEnabled m) (totalRepos m)\<rparr>"

section \<open>The GitHub client\<close>

text \<open>
  An error value is a message, possibly wrapping another error
  (\<open>fmt.Errorf("...: %w", err)\<close>).
\<close>

datatype error = Error string | Wrapped string error

text \<open>
  The collector talks to GitHub through the interface \<open>GitHubClient\<close>.  A client is
  modelled by what its three methods answer and by how they change the state \<open>'s\<close> of
  the world behind it.  Each method returns either an error or a value, as every method of
  the package's own client does (none returns \<open>nil\<close> without an error).
  \<open>FetchRepositories\<close> hands its pages to the callback one after the other; the
  callback of \<open>Collect\<close> always returns \<open>nil\<close>, so a call is described by the
  pages it delivered and by the error, if any, it ended with.
\<close>

record 's GitHubClient =
  FetchOrgSecurity :: "string \<Rightarrow> 's \<Rightarrow> (error + OrgSecurity) \<times> 's"
  FetchRepositories :: "string \<Rightarrow> 's \<Rightarrow> (Repository list list \<times> error option) \<times> 's"
  FetchSecuritySettings :: "string \<Rightarrow> string \<Rightarrow> 's \<Rightarrow> (error + SecuritySettings) \<times> 's"

text \<open>
  The REST call behind \<open>(*Client).FetchOrgSecurity\<close>: the request fails in transport,
  or a response arrives with a status code and a body, which decodes (\<open>Some\<close>) to the
  optional field \<open>two_factor_requirement_enabled\<close> or does not decode (\<open>None\<close>).
\<close>

datatype 'b http_result = TransportError error | Response nat "'b option"

definition StatusOK :: nat where
  "StatusOK = 200"

definition fetchOrgTwoFactorREST :: "(bool option) http_result \<Rightarrow> error + bool option" where
  "fetchOrgTwoFactorREST reply =
     (case reply of
        TransportError err \<Rightarrow> Inl err
      | Response status body \<Rightarrow>
          if status \<noteq> StatusOK then Inl (Error ''org API returned status'')
          else (case body of
                  None \<Rightarrow> Inl (Error ''invalid JSON'')
                | Some field \<Rightarrow> Inr field))"

definition Client_FetchOrgSecurity :: "(bool option) http_result \<Rightarrow> error + OrgSecurity" where
  "Client_FetchOrgSecurity reply =
     (let result = \<lparr>TwoFactorRequired = None\<rparr>
      in case fetchOrgTwoFactorREST reply of
           Inr twoFA \<Rightarrow> Inr (result\<lparr>TwoFactorRequired := twoFA\<rparr>)
         | Inl err \<Rightarrow> Inr result)"

section \<open>The collector\<close>

text \<open>
  Of \<open>Config\<close>, the credentials play no part in \<open>Collect\<close>.  The variant
  of the collector that reports status and progress through the callbacks of
  \<open>Config\<close> computes the same result; the callbacks are left out.  A \<open>nil\<close>
  slice and an empty slice of patterns are both the empty list.
\<close>

record Config =
  Organization :: string
  IncludePatterns :: "string list"
  ExcludePatterns :: "string list"

definition SchemaVersion :: string where
  "SchemaVersion = ''1.0.0''"

text \<open>\<open>NewOrgPosture\<close> reads the clock; the formatted time is the parameter \<open>now\<close>.\<close>

definition NewOrgPosture :: "string \<Rightarrow> string \<Rightarrow> OrgPosture" where
  "NewOrgPosture org now =
     \<lparr>schema_version = SchemaVersion, collected_at = now, organization = org,
      scope = \<lparr>include_patterns = [], exclude_patterns = [], repositories_coverage = 0\<rparr>,
      posture = \<lparr>branch_protection_coverage = 0, security_features_coverage = 0\<rparr>,
      access_control = \<lparr>two_factor_required = None\<rparr>,
      branch_protection_rules =
        \<lparr>pull_request_required = 0, approving_reviews = 0, dismiss_stale_reviews = 0,
         code_owner_reviews = 0, status_checks = 0, signed_commits = 0, admin_enforcement = 0\<rparr>,
      security_features =
        \<lparr>vulnerability_alerts = 0, code_scanning = 0, secret_scanning = 0,
         secret_scanning_push_protection = 0, dependabot_security_updates = 0\<rparr>\<rparr>"

text \<open>The callback given to \<open>FetchRepositories\<close>, and its run over the delivered pages.\<close>

definition processPage ::
  "string list \<Rightarrow> string list \<Rightarrow> metricsAggregator \<Rightarrow> Repository list \<Rightarrow> metricsAggregator" where
  "processPage includePatterns excludePatterns m page =
     foldl (\<lambda>m' repo. processRepository m' repo includePatterns excludePatterns) m page"

definition processPages ::
  "string list \<Rightarrow> string list \<Rightarrow> metricsAggregator \<Rightarrow> Repository list list \<Rightarrow> metricsAggregator" where
  "processPages includePatterns excludePatterns m pages =
     foldl (processPage includePatterns excludePatterns) m pages"

text \<open>
  \<^verbatim>\<open>
  for _, repo := range metrics.repos {
      settings, err := c.client.FetchSecuritySettings(ctx, repo.owner, repo.name)
      if err != nil { continue }
      metrics.countSecuritySettings(settings)
  }
  \<close>
\<close>

fun fetchSettingsLoop ::
  "'s GitHubClient \<Rightarrow> repoInfo list \<Rightarrow> metricsAggregator \<Rightarrow> 's \<Rightarrow> metricsAggregator \<times> 's" where
  "fetchSettingsLoop client [] metrics s = (metrics, s)"
| "fetchSettingsLoop client (repo # rest) metrics s =
     (case FetchSecuritySettings client (owner repo) (name repo) s of
        (Inl err, s') \<Rightarrow> fetchSettingsLoop client rest metrics s'
      | (Inr settings, s') \<Rightarrow>
          fetchSettingsLoop client rest (countSecuritySettings metrics settings) s')"

definition fetchSecuritySettings ::
  "'s GitHubClient \<Rightarrow> metricsAggregator \<Rightarrow> 's \<Rightarrow> metricsAggregator \<times> 's" where
  "fetchSecuritySettings client metrics s = fetchSettingsLoop client (repos metrics) metrics s"

definition populatePosture ::
  "Config \<Rightarrow> OrgPosture \<Rightarrow> OrgSecurity \<Rightarrow> metricsAggregator \<Rightarrow> string list \<Rightarrow> OrgPosture" where
  "populatePosture config p orgSecurity metrics includePatterns =
     (let excludePatterns = ExcludePatterns config;
          totalOrgRepos = totalRepos metrics + excludedRepos metrics
      in p\<lparr>scope :=
             \<lparr>include_patterns = includePatterns,
              exclude_patterns = excludePatterns,
              repositories_coverage = percent (totalRepos metrics) totalOrgRepos\<rparr>,
           posture :=
             \<lparr>branch_protection_coverage =
                percent (branchProtectionEnabled metrics) (totalRepos metrics),
              security_features_coverage = securityFeaturesCoverage metrics\<rparr>,
           access_control := \<lparr>two_factor_required = TwoFactorRequired orgSecurity\<rparr>,
           branch_protection_rules := toBranchProtectionRules metrics,
           security_features := toSecurityFeatures metrics\<rparr>)"

definition Collect ::
  "'s GitHubClient \<Rightarrow> Config \<Rightarrow> string \<Rightarrow> 's \<Rightarrow> (error + OrgPosture) \<times> 's" where
  "Collect client config now s =
     (if Organization config = [] then (Inl (Error ''organization is required''), s)
      else
        let includePatterns =
              (if length (IncludePatterns config) = 0 then [DefaultIncludePattern]
               else IncludePatterns config);
            p = NewOrgPosture (Organization config) now
        in case FetchOrgSecurity client (Organization config) s of
             (Inl err, s1) \<Rightarrow> (Inl (Wrapped ''failed to fetch org security'' err), s1)
           | (Inr orgSecurity, s1) \<Rightarrow>
               (case FetchRepositories client (Organization config) s1 of
                  ((pages, Some err), s2) \<Rightarrow>
                    (Inl (Wrapped ''failed to fetch repositories'' err), s2)
                | ((pages, None), s2) \<Rightarrow>
                    (case fetchSecuritySettings client
                            (processPages includePatterns (ExcludePatterns config)
                               newMetricsAggregator pages) s2 of
                       (metrics, s3) \<Rightarrow>
                         (Inr (populatePosture config p orgSecurity metrics includePatterns),
                          s3))))"

section \<open>Sequences of calls on the aggregator\<close>

text \<open>
  The aggregator is changed by two methods only.  Its states are those that a sequence of
  calls reaches from the zero value.
\<close>

datatype aggregatorCall =
  ProcessRepository Repository "string list" "string list"
| CountSecuritySettings SecuritySettings

fun call :: "metricsAggregator \<Rightarrow> aggregatorCall \<Rightarrow> metricsAggregator" where
  "call m (ProcessRepository repo includePatterns excludePatterns) =
     processRepository m repo includePatterns excludePatterns"
| "call m (CountSecuritySettings settings) = countSecuritySettings m settings"

definition runCalls :: "aggregatorCall list \<Rightarrow> metricsAggregator" where
  "runCalls calls = foldl call newMetricsAggregator calls"

text \<open>
  The orchestrated sequence: \<open>processRepository\<close> for every repository of every page,
  then \<open>countSecuritySettings\<close> for the settings that were fetched.
\<close>

definition orchestrated ::
  "string list \<Rightarrow> string list \<Rightarrow> Repository list list \<Rightarrow> SecuritySettings list \<Rightarrow>
   metricsAggregator" where
  "orchestrated includePatterns excludePatterns pages fetched =
     foldl countSecuritySettings
       (processPages includePatterns excludePatterns newMetricsAggregator pages) fetched"

text \<open>The settings that the loop of \<open>fetchSecuritySettings\<close> receives without an error.\<close>

fun fetchedSettings :: "'s GitHubClient \<Rightarrow> repoInfo list \<Rightarrow> 's \<Rightarrow> SecuritySettings list" where
  "fetchedSettings client [] s = []"
| "fetchedSettings client (repo # rest) s =
     (case FetchSecuritySettings client (owner repo) (name repo) s of
        (Inl err, s') \<Rightarrow> fetchedSettings client rest s'
      | (Inr settings, s') \<Rightarrow> settings # fetchedSettings client rest s')"

text \<open>The invariant of the aggregator, on the unsigned reading of its counters.\<close>

definition scopeCounted :: "nat \<Rightarrow> metricsAggregator \<Rightarrow> bool" where
  "scopeCounted n m =
     (unat (totalRepos m) + unat (excludedRepos m) = n
      \<and> length (repos m) = unat (totalRepos m)
      \<and> unat (branchProtectionEnabled m) \<le> unat (totalRepos m)
      \<and> unat (requirePullRequest m) \<le> unat (totalRepos m)
      \<and> unat (requireApprovingReviews m) \<le> unat (totalRepos m)
      \<and> unat (dismissStaleReviews m) \<le> unat (totalRepos m)
      \<and> unat (requireCodeOwnerReviews m) \<le> unat (totalRepos m)
      \<and> unat (requireStatusChecks m) \<le> unat (totalRepos m)
      \<and> unat (requireSignedCommits m) \<le> unat (totalRepos m)
      \<and> unat (enforceAdmins m) \<le> unat (totalRepos m)
      \<and> unat (vulnerabilityAlertsEnabled m) \<le> unat (totalRepos m))"

definition settingsCounted :: "nat \<Rightarrow> metricsAggregator \<Rightarrow> bool" where
  "settingsCounted k m =
     (unat (codeScanningEnabled m) \<le> k
      \<and> unat (secretScanningEnabled m) \<le> k
      \<and> unat (secretScanningPushProtection m) \<le> k
      \<and> unat (dependabotSecurityUpdatesEnabled m) \<le> k)"

text \<open>
  The computation that the specification rules out for \<open>securityFeaturesCoverage\<close>:
  the average of the five percentages, each of them already truncated.
\<close>

definition averageOfPercentages :: "metricsAggregator \<Rightarrow> go_int" where
  "averageOfPercentages m =
     (let f = toSecurityFeatures m
      in go_quot (vulnerability_alerts f + code_scanning f + secret_scanning f +
                  secret_scanning_push_protection f + dependabot_security_updates f)
           NumSecurityFeatures)"

section \<open>The instructions of a translated pattern\<close>

definition instOf :: "char \<Rightarrow> inst" where
  "instOf c =
     (if c = CHR ''*'' then Star AnyCharNotNL
      else if c = CHR ''?'' then One AnyCharNotNL
      else One (Literal c))"

definition noStar :: "string \<Rightarrow> bool" where
  "noStar s = (case s of [] \<Rightarrow> True | d # ds \<Rightarrow> d \<noteq> CHR ''*'')"

section \<open>Example data\<close>

definition exampleRepository ::
  "string \<Rightarrow> BranchProtectionRule option \<Rightarrow> bool \<Rightarrow> Repository" where
  "exampleRepository nm rule alerts =
     \<lparr>Name = nm, Owner_Login = ''acme'', Visibility = ''PRIVATE'',
      DefaultBranchRef_Name = ''main'', DefaultBranchRef_BranchProtectionRule = rule,
      HasVulnerabilityAlertsEnabled = alerts\<rparr>"

definition exampleSettings :: "bool \<Rightarrow> bool \<Rightarrow> SecuritySettings" where
  "exampleSettings most dependabot =
     \<lparr>SecretScanning = most, SecretScanningPushProtection = most,
      DependabotSecurityUpdates = dependabot, CodeScanningEnabled = most\<rparr>"

definition exampleMetrics :: metricsAggregator where
  "exampleMetrics =
     orchestrated [''*''] []
       [[exampleRepository ''prod-a'' None True, exampleRepository ''prod-b'' None False],
        [exampleRepository ''test-c'' None False]]
       [exampleSettings True True, exampleSettings False True, exampleSettings False False]"

text \<open>
  An organization of three repositories in two pages.  Its client cannot see the
  two-factor setting (the REST call is answered with 403), delivers both pages, and fails
  to fetch the settings of \<open>prod-b\<close>.  The state of the client counts its requests.
\<close>

definition exampleRule :: "bool \<Rightarrow> BranchProtectionRule" where
  "exampleRule b =
     \<lparr>RequiresApprovingReviews = True, RequiredApprovingReviewCount = 1,
      DismissesStaleReviews = b, RequiresCodeOwnerReviews = b, RequiresStatusChecks = True,
      RequiresCommitSignatures = b, IsAdminEnforced = b\<rparr>"

definition examplePages :: "Repository list list" where
  "examplePages =
     [[exampleRepository ''prod-a'' (Some (exampleRule True)) True,
       exampleRepository ''prod-b'' (Some (exampleRule False)) False],
      [exampleRepository ''test-c'' None False]]"

definition exampleClient :: "nat GitHubClient" where
  "exampleClient =
     \<lparr>FetchOrgSecurity = (\<lambda>org n. (Client_FetchOrgSecurity (Response 403 None), Suc n)),
      FetchRepositories = (\<lambda>org n. ((examplePages, None), n + 2)),
      FetchSecuritySettings =
        (\<lambda>owner' nm n.
           (if nm = ''prod-b'' then Inl (Error ''connection reset'')
            else Inr (exampleSettings True False), Suc n))\<rparr>"

definition exampleConfig :: Config where
  "exampleConfig =
     \<lparr>Organization = ''acme'', IncludePatterns = [''prod-*''], ExcludePatterns = []\<rparr>"

definition exampleTime :: string where
  "exampleTime = ''2024-01-01T00:00:00Z''"

definition exampleReport :: OrgPosture where
  "exampleReport =
     \<lparr>schema_version = ''1.0.0'', collected_at = exampleTime, organization = ''acme'',
      scope = \<lparr>include_patterns = [''prod-*''], exclude_patterns = [], repositories_coverage = 66\<rparr>,
      posture = \<lparr>branch_protection_coverage = 100, security_features_coverage = 40\<rparr>,
      access_control = \<lparr>two_factor_required = None\<rparr>,
      branch_protection_rules =
        \<lparr>pull_request_required = 100, approving_reviews = 100, dismiss_stale_reviews = 50,
         code_owner_reviews = 50, status_checks = 100, signed_commits = 50, admin_enforcement = 50\<rparr>,
      security_features =
        \<lparr>vulnerability_alerts = 50, code_scanning = 50, secret_scanning = 50,
         secret_scanning_push_protection = 50, dependabot_security_updates = 0\<rparr>\<rparr>"

section \<open>Notions used in the statements about \<open>Collect\<close>\<close>

text \<open>The include patterns that \<open>Collect\<close> works with.\<close>

definition effectiveIncludePatterns :: "Config \<Rightarrow> string list" where
  "effectiveIncludePatterns config =
     (if IncludePatterns config = [] then [DefaultIncludePattern] else IncludePatterns config)"

text \<open>
  The settings in which every feature is disabled, and the client that answers with them
  wherever the given client fails to fetch the settings of a repository.
\<close>

definition allDisabled :: SecuritySettings where
  "allDisabled =
     \<lparr>SecretScanning = False, SecretScanningPushProtection = False,
      DependabotSecurityUpdates = False, CodeScanningEnabled = False\<rparr>"

definition degraded :: "'s GitHubClient \<Rightarrow> 's GitHubClient" where
  "degraded client =
     client\<lparr>FetchSecuritySettings :=
       (\<lambda>owner' nm s.
          case FetchSecuritySettings client owner' nm s of
            (Inl err, s') \<Rightarrow> (Inr allDisabled, s')
          | (Inr settings, s') \<Rightarrow> (Inr settings, s'))\<rparr>"

section \<open>Properties of \<open>percent\<close>\<close>

lemma sint_in_range:
  fixes k :: int
  assumes "- (2 ^ 63) \<le> k" "k < 2 ^ 63"
  shows "sint (word_of_int k :: go_int) = k"
  using assms by (simp add: sint_sbintrunc' signed_take_bit_int_eq_self)

lemma sint_mult_in_range:
  fixes a b :: go_int
  assumes "- (2 ^ 63) \<le> sint a * sint b" "sint a * sint b < 2 ^ 63"
  shows "sint (a * b) = sint a * sint b"
  using assms by (simp add: sint_word_mult signed_take_bit_int_eq_self)

lemma go_quot_nonneg:
  assumes "0 \<le> sint a" "0 < sint b"
  shows "sint (go_quot a b) = sint a div sint b"
proof -
  have q: "sint a sdiv sint b = sint a div sint b"
    using assms by (cases "sint a = 0") (simp_all add: signed_divide_int_def)
  have "0 \<le> sint a div sint b" using assms by (simp add: pos_imp_zdiv_nonneg_iff)
  moreover have "sint a div sint b \<le> sint a"
    using assms by (cases "sint a = 0") (simp_all add: int_div_le_self)
  moreover have "sint a < 2 ^ 63" using sint_lt [of a] by simp
  ultimately show ?thesis
    unfolding go_quot_def q by (intro sint_in_range) auto
qed

lemma go_quot_neg:
  assumes "sint a < 0" "0 < sint b"
  shows "sint (go_quot a b) = - ((- sint a) div sint b)"
proof -
  have q: "sint a sdiv sint b = - ((- sint a) div sint b)"
    using assms by (simp add: signed_divide_int_def)
  have "0 \<le> (- sint a) div sint b" using assms by (simp add: pos_imp_zdiv_nonneg_iff)
  moreover have "(- sint a) div sint b \<le> - sint a"
    using assms by (simp add: int_div_le_self)
  moreover have "- (2 ^ 63) \<le> sint a" using sint_ge [of a] by simp
  ultimately show ?thesis
    unfolding go_quot_def q by (intro sint_in_range) auto
qed

lemma percent_nonneg:
  assumes "0 \<le> sint c" "sint c * 100 < 2 ^ 63" "0 < sint t"
  shows "sint (percent c t) = (sint c * 100) div sint t"
proof -
  have m: "sint (c * 100) = sint c * 100"
    using assms sint_mult_in_range [of c 100] by simp
  have "t \<noteq> 0" using assms by auto
  then show ?thesis
    using assms m by (simp add: percent_def MaxPercentage_def go_quot_nonneg)
qed

lemma percent_neg:
  assumes "sint c < 0" "- (2 ^ 63) \<le> sint c * 100" "0 < sint t"
  shows "sint (percent c t) = - ((- (sint c * 100)) div sint t)"
proof -
  have m: "sint (c * 100) = sint c * 100"
    using assms sint_mult_in_range [of c 100] by simp
  have "t \<noteq> 0" using assms by auto
  then show ?thesis
    using assms m by (simp add: percent_def MaxPercentage_def go_quot_neg)
qed

lemma percent_range:
  assumes "0 \<le> sint c" "sint c \<le> sint t" "sint c * 100 < 2 ^ 63"
  shows "0 \<le> sint (percent c t) \<and> sint (percent c t) \<le> 100"
proof (cases "t = 0")
  case True
  then show ?thesis by (simp add: percent_def)
next
  case False
  then have "sint t \<noteq> 0" by (simp add: signed_eq_0_iff)
  with assms have t: "0 < sint t" by linarith
  have e: "sint (percent c t) = (sint c * 100) div sint t"
    using assms t by (rule_tac percent_nonneg) auto
  have "(sint c * 100) div sint t \<le> (sint t * 100) div sint t"
    using assms t by (intro zdiv_mono1) auto
  then have "(sint c * 100) div sint t \<le> 100" using t by simp
  moreover have "0 \<le> (sint c * 100) div sint t"
    using assms t by (simp add: pos_imp_zdiv_nonneg_iff)
  ultimately show ?thesis using e by simp
qed

lemma percent_same:
  assumes "0 < sint t" "sint t * 100 < 2 ^ 63"
  shows "percent t t = 100"
proof -
  have "sint (percent t t) = (sint t * 100) div sint t"
    using assms by (intro percent_nonneg) auto
  then have "sint (percent t t) = sint (100 :: go_int)" using assms by simp
  then show ?thesis by (rule signed_word_eqI)
qed

lemma percent_eval: "percent 1 3 = 33" "percent 2 3 = 66"
  by (simp_all add: percent_def go_quot_def MaxPercentage_def signed_divide_int_def)

lemma percent_zero_count: "percent 0 t = 0"
  by (simp add: percent_def go_quot_def)

lemma percent_overflow_example: "percent (2 ^ 62) 1 = 0"
  by (simp add: percent_def go_quot_def MaxPercentage_def signed_divide_int_def)

text \<open>
  Claim C4, as amended.  \<open>percent count 0\<close> is 0 for every count.  For a positive total
  and a count whose hundredfold fits the 64-bit integer, \<open>percent\<close> is the quotient
  \<open>count * 100 / total\<close> truncated towards zero: for a count that is not negative this
  is the floor of the quotient, for a negative count it is the negated floor of the
  negated quotient.  In particular \<open>percent 0 t = 0\<close>, \<open>percent t t = 100\<close>
  (for a positive \<open>t\<close> whose hundredfold fits), \<open>percent 1 3 = 33\<close> and
  \<open>percent 2 3 = 66\<close>.
\<close>

theorem percent_truncates:
  "percent c 0 = 0
   \<and> (0 < sint t \<and> 0 \<le> sint c \<and> sint c * 100 < 2 ^ 63 \<longrightarrow>
        sint (percent c t) = (sint c * 100) div sint t)
   \<and> (0 < sint t \<and> sint c < 0 \<and> - (2 ^ 63) \<le> sint c * 100 \<longrightarrow>
        sint (percent c t) = - ((- (sint c * 100)) div sint t))
   \<and> percent 0 t = 0
   \<and> (0 < sint t \<and> sint t * 100 < 2 ^ 63 \<longrightarrow> percent t t = 100)
   \<and> percent 1 3 = 33 \<and> percent 2 3 = 66"
  using percent_nonneg [of c t] percent_neg [of c t] percent_same [of t] percent_eval percent_zero_count [of t]
  by (simp add: percent_def)

theorem percent_truncates_witness:
  "(0 < sint (3 :: go_int) \<and> 0 \<le> sint (2 :: go_int) \<and> sint (2 :: go_int) * 100 < 2 ^ 63)
   \<and> sint (percent 2 3) = 66
   \<and> (sint (- 1 :: go_int) < 0 \<and> - (2 ^ 63) \<le> sint (- 1 :: go_int) * 100)
   \<and> sint (percent (- 1) 3) = - 33
   \<and> (0 < sint (7 :: go_int) \<and> sint (7 :: go_int) * 100 < 2 ^ 63) \<and> percent 7 7 = 100"
  using percent_truncates [of 2 3] percent_truncates [of "- 1" 3] percent_truncates [of 7 7]
  by simp

text \<open>
  Claim C4 as stated fails for a negative count, \<open>percent (-1) 3\<close> is \<open>-33\<close>
  and the floor of \<open>-100 / 3\<close> is \<open>-34\<close>, and for a count whose hundredfold
  does not fit, \<open>percent (2 ^ 62) 1\<close> is 0.
\<close>

theorem percent_floor_counterexample:
  "sint (percent (- 1) 3) = - 33
   \<and> (sint (- 1 :: go_int) * 100) div sint (3 :: go_int) = - 34
   \<and> sint (percent (2 ^ 62) 1) = 0
   \<and> (sint (2 ^ 62 :: go_int) * 100) div sint (1 :: go_int) = 461168601842738790400"
  by (simp add: percent_def go_quot_def MaxPercentage_def signed_divide_int_def)

text \<open>
  Claim C9, as amended.  For a count between 0 and the total whose hundredfold fits the
  64-bit integer, \<open>percent count total\<close> lies between 0 and 100.
\<close>

theorem percent_in_range:
  "0 \<le> sint c \<Longrightarrow> sint c \<le> sint t \<Longrightarrow> sint c * 100 < 2 ^ 63 \<Longrightarrow>
   0 \<le> sint (percent c t) \<and> sint (percent c t) \<le> 100"
  by (rule percent_range)

theorem percent_in_range_witness:
  "0 \<le> sint (2 :: go_int) \<and> sint (2 :: go_int) \<le> sint (3 :: go_int) \<and> sint (2 :: go_int) * 100 < 2 ^ 63
   \<and> 0 \<le> sint (percent 2 3) \<and> sint (percent 2 3) \<le> 100"
  using percent_in_range [of 2 3] by simp

text \<open>
  Claim C9 as stated fails for a count above the total, \<open>percent 2 1 = 200\<close>, and
  for a count whose hundredfold does not fit:
  \<open>percent 92233720368547759 92233720368547759\<close> is \<open>-99\<close>.
\<close>

theorem percent_range_counterexample:
  "sint (percent 2 1) = 200
   \<and> sint (percent 92233720368547759 92233720368547759) = - 99"
  by (simp add: percent_def go_quot_def MaxPercentage_def signed_divide_int_def)

section \<open>Properties of the metrics aggregator\<close>

lemma countBranchProtection_eq:
  "countBranchProtection m repo =
     (case DefaultBranchRef_BranchProtectionRule repo of
        None \<Rightarrow> m
      | Some bp \<Rightarrow>
          m\<lparr>branchProtectionEnabled := branchProtectionEnabled m + 1,
            requirePullRequest := requirePullRequest m + of_bool (RequiresApprovingReviews bp),
            requireApprovingReviews := requireApprovingReviews m + of_bool (RequiresApprovingReviews bp),
            dismissStaleReviews := dismissStaleReviews m + of_bool (DismissesStaleReviews bp),
            requireCodeOwnerReviews := requireCodeOwnerReviews m + of_bool (RequiresCodeOwnerReviews bp),
            requireStatusChecks := requireStatusChecks m + of_bool (RequiresStatusChecks bp),
            requireSignedCommits := requireSignedCommits m + of_bool (RequiresCommitSignatures bp),
            enforceAdmins := enforceAdmins m + of_bool (IsAdminEnforced bp)\<rparr>)"
  by (simp add: countBranchProtection_def Let_def split: option.split)

text \<open>
  Claim C1.  \<open>processRepository\<close> on a repository that the scope filter rejects adds
  one to the excluded count and changes nothing else.  On an accepted repository it adds one
  to the included count, appends the pair of owner and name to the list for the second
  phase, adds one to the vulnerability-alerts counter iff the flag of the record is set,
  and, iff a branch-protection rule is present, adds one to the counter of protected
  repositories and to each counter whose flag in the rule is true (both
  \<open>requirePullRequest\<close> and \<open>requireApprovingReviews\<close> follow
  \<open>RequiresApprovingReviews\<close>); without a rule no branch-protection counter moves.
  The four counters of the second phase never move.
\<close>

theorem processRepository_spec:
  "processRepository m repo includePatterns excludePatterns =
     (if \<not> ShouldIncludeRepo (Name repo) includePatterns excludePatterns
      then m\<lparr>excludedRepos := excludedRepos m + 1\<rparr>
      else
        (case DefaultBranchRef_BranchProtectionRule repo of
           None \<Rightarrow>
             m\<lparr>totalRepos := totalRepos m + 1,
               repos := repos m @ [\<lparr>owner = Owner_Login repo, name = Name repo\<rparr>],
               vulnerabilityAlertsEnabled :=
                 vulnerabilityAlertsEnabled m + of_bool (HasVulnerabilityAlertsEnabled repo)\<rparr>
         | Some bp \<Rightarrow>
             m\<lparr>totalRepos := totalRepos m + 1,
               repos := repos m @ [\<lparr>owner = Owner_Login repo, name = Name repo\<rparr>],
               branchProtectionEnabled := branchProtectionEnabled m + 1,
               requirePullRequest := requirePullRequest m + of_bool (RequiresApprovingReviews bp),
               requireApprovingReviews :=
                 requireApprovingReviews m + of_bool (RequiresApprovingReviews bp),
               dismissStaleReviews := dismissStaleReviews m + of_bool (DismissesStaleReviews bp),
               requireCodeOwnerReviews :=
                 requireCodeOwnerReviews m + of_bool (RequiresCodeOwnerReviews bp),
               requireStatusChecks := requireStatusChecks m + of_bool (RequiresStatusChecks bp),
               requireSignedCommits :=
                 requireSignedCommits m + of_bool (RequiresCommitSignatures bp),
               enforceAdmins := enforceAdmins m + of_bool (IsAdminEnforced bp),
               vulnerabilityAlertsEnabled :=
                 vulnerabilityAlertsEnabled m + of_bool (HasVulnerabilityAlertsEnabled repo)\<rparr>))"
  by (simp add: processRepository_def countBranchProtection_eq Let_def split: option.split)

lemma countSecuritySettings_eq:
  "countSecuritySettings m settings =
     m\<lparr>codeScanningEnabled := codeScanningEnabled m + of_bool (CodeScanningEnabled settings),
       secretScanningEnabled := secretScanningEnabled m + of_bool (SecretScanning settings),
       secretScanningPushProtection :=
         secretScanningPushProtection m + of_bool (SecretScanningPushProtection settings),
       dependabotSecurityUpdatesEnabled :=
         dependabotSecurityUpdatesEnabled m + of_bool (DependabotSecurityUpdates settings)\<rparr>"
  by (simp add: countSecuritySettings_def Let_def)

lemma unat_Suc_go_int:
  fixes x :: go_int
  assumes "unat x < 2 ^ 64 - 1"
  shows "unat (x + 1) = Suc (unat x)"
proof -
  have "unat (x + 1) = (unat x + 1) mod 2 ^ 64"
    by (simp add: unat_word_ariths)
  also have "\<dots> = unat x + 1" using assms by simp
  finally show ?thesis by simp
qed

lemma unat_add_of_bool:
  fixes x :: go_int
  assumes "unat x < 2 ^ 64 - 1"
  shows "unat (x + of_bool b) = unat x + of_bool b"
  using unat_Suc_go_int [OF assms] by (cases b) simp_all

lemma unat_add_of_bool_le:
  fixes x y :: go_int
  assumes "unat x \<le> unat y" "unat y < 2 ^ 64 - 1"
  shows "unat (x + of_bool b) \<le> Suc (unat y)"
proof -
  have "unat x < 2 ^ 64 - 1" using assms by simp
  from unat_add_of_bool [OF this, of b] assms show ?thesis by (cases b) simp_all
qed

lemma scopeCounted_processRepository:
  assumes "scopeCounted n m" "n < 2 ^ 64 - 1"
  shows "scopeCounted (Suc n) (processRepository m repo inc exc)"
proof -
  from assms have t: "unat (totalRepos m) < 2 ^ 64 - 1" and e: "unat (excludedRepos m) < 2 ^ 64 - 1"
    by (simp_all add: scopeCounted_def)
  note le = unat_add_of_bool_le [OF _ t]
  show ?thesis
  proof (cases "ShouldIncludeRepo (Name repo) inc exc")
    case False
    with assms unat_Suc_go_int [OF e] show ?thesis
      by (simp add: processRepository_def scopeCounted_def)
  next
    case True
    with assms unat_Suc_go_int [OF t] le [where b = True] show ?thesis
      by (simp add: processRepository_def countBranchProtection_eq scopeCounted_def Let_def le
          split: option.split)
  qed
qed

lemma settingsCounted_processRepository:
  "settingsCounted k (processRepository m repo inc exc) = settingsCounted k m"
  by (simp add: processRepository_def countBranchProtection_eq settingsCounted_def Let_def
      split: option.split)

lemma scopeCounted_countSecuritySettings:
  "scopeCounted n (countSecuritySettings m settings) = scopeCounted n m"
  by (simp add: countSecuritySettings_eq scopeCounted_def)

lemma settingsCounted_countSecuritySettings:
  assumes "settingsCounted k m" "k < 2 ^ 64 - 1"
  shows "settingsCounted (Suc k) (countSecuritySettings m settings)"
proof -
  have le: "unat (x + of_bool b) \<le> Suc k" if "unat x \<le> k" for x :: go_int and b
  proof -
    have "unat x < 2 ^ 64 - 1" using that assms by simp
    from unat_add_of_bool [OF this, of b] that show ?thesis by (cases b) simp_all
  qed
  show ?thesis
    using assms by (simp add: countSecuritySettings_eq settingsCounted_def le)
qed

lemma scopeCounted_foldl:
  assumes "scopeCounted n m" "n + length rs < 2 ^ 64"
  shows "scopeCounted (n + length rs)
           (foldl (\<lambda>m' repo. processRepository m' repo inc exc) m rs)"
  using assms
proof (induction rs arbitrary: n m)
  case Nil
  then show ?case by simp
next
  case (Cons r rs)
  from Cons.prems have "scopeCounted (Suc n) (processRepository m r inc exc)"
    by (intro scopeCounted_processRepository) simp_all
  from Cons.IH [OF this] Cons.prems show ?case by simp
qed

lemma settingsCounted_foldl_process:
  "settingsCounted k (foldl (\<lambda>m' repo. processRepository m' repo inc exc) m rs)
   = settingsCounted k m"
  by (induction rs arbitrary: m) (simp_all add: settingsCounted_processRepository)

lemma processPages_concat:
  "processPages inc exc m pages
   = foldl (\<lambda>m' repo. processRepository m' repo inc exc) m (concat pages)"
  unfolding processPages_def
  by (induction pages arbitrary: m) (simp_all add: processPage_def)

lemma scopeCounted_new: "scopeCounted 0 newMetricsAggregator"
  by (simp add: scopeCounted_def newMetricsAggregator_def)

lemma settingsCounted_new: "settingsCounted 0 newMetricsAggregator"
  by (simp add: settingsCounted_def newMetricsAggregator_def)

lemma scopeCounted_processPages:
  assumes "length (concat pages) < 2 ^ 64"
  shows "scopeCounted (length (concat pages)) (processPages inc exc newMetricsAggregator pages)"
  using scopeCounted_foldl [OF scopeCounted_new, of "concat pages" inc exc] assms
  by (simp add: processPages_concat)

lemma settingsCounted_processPages:
  "settingsCounted 0 (processPages inc exc newMetricsAggregator pages)"
  by (simp add: processPages_concat settingsCounted_foldl_process settingsCounted_new)

lemma scopeCounted_foldl_settings:
  "scopeCounted n (foldl countSecuritySettings m ss) = scopeCounted n m"
  by (induction ss arbitrary: m) (simp_all add: scopeCounted_countSecuritySettings)

lemma settingsCounted_foldl_settings:
  assumes "settingsCounted k m" "k + length ss < 2 ^ 64"
  shows "settingsCounted (k + length ss) (foldl countSecuritySettings m ss)"
  using assms
proof (induction ss arbitrary: k m)
  case Nil
  then show ?case by simp
next
  case (Cons x ss)
  from Cons.prems have "settingsCounted (Suc k) (countSecuritySettings m x)"
    by (intro settingsCounted_countSecuritySettings) simp_all
  from Cons.IH [OF this] Cons.prems show ?case by simp
qed

lemma sint_unat:
  fixes x :: go_int
  assumes "unat x < 2 ^ 63"
  shows "sint x = int (unat x)"
proof -
  have "int (unat x) < int (2 ^ 63)"
    using assms by (rule iffD2 [OF of_nat_less_iff])
  then have "uint x < 2 ^ 63" by simp
  moreover have "- (2 ^ 63) \<le> uint x"
    by (rule order_trans [of _ 0]) simp_all
  ultimately have "signed_take_bit 63 (uint x) = uint x"
    by (intro signed_take_bit_int_eq_self)
  then show ?thesis by (simp add: sint_uint)
qed




lemma fetchSettingsLoop_fetched:
  "fst (fetchSettingsLoop client rs m s) = foldl countSecuritySettings m (fetchedSettings client rs s)"
  by (induction client rs m s rule: fetchSettingsLoop.induct)
     (auto split: prod.splits sum.splits)

lemma length_fetchedSettings: "length (fetchedSettings client rs s) \<le> length rs"
  by (induction client rs s rule: fetchedSettings.induct)
     (auto split: prod.splits sum.splits)

lemma repos_foldl_settings: "repos (foldl countSecuritySettings m ss) = repos m"
  by (induction ss arbitrary: m) (simp_all add: countSecuritySettings_eq)

lemma totalRepos_foldl_settings: "totalRepos (foldl countSecuritySettings m ss) = totalRepos m"
  by (induction ss arbitrary: m) (simp_all add: countSecuritySettings_eq)

lemma fetchSecuritySettings_orchestrated:
  "fst (fetchSecuritySettings client (processPages inc exc newMetricsAggregator pages) s)
   = orchestrated inc exc pages
       (fetchedSettings client (repos (processPages inc exc newMetricsAggregator pages)) s)"
  by (simp add: fetchSecuritySettings_def fetchSettingsLoop_fetched orchestrated_def)

lemma orchestrated_counted:
  assumes n: "length (concat pages) < 2 ^ 63"
    and k: "length fetched \<le> length (repos (processPages inc exc newMetricsAggregator pages))"
  shows "scopeCounted (length (concat pages)) (orchestrated inc exc pages fetched)"
    and "settingsCounted (unat (totalRepos (orchestrated inc exc pages fetched)))
           (orchestrated inc exc pages fetched)"
proof -
  let ?m1 = "processPages inc exc newMetricsAggregator pages"
  let ?m = "orchestrated inc exc pages fetched"
  have n64: "length (concat pages) < 2 ^ 64" using n by simp
  have sc1: "scopeCounted (length (concat pages)) ?m1"
    by (rule scopeCounted_processPages [OF n64])
  then show sc: "scopeCounted (length (concat pages)) ?m"
    by (simp add: orchestrated_def scopeCounted_foldl_settings)
  have "length fetched \<le> unat (totalRepos ?m1)"
    using sc1 k by (simp add: scopeCounted_def)
  moreover have "unat (totalRepos ?m1) \<le> length (concat pages)"
    using sc1 by (simp add: scopeCounted_def)
  ultimately have lt: "0 + length fetched < 2 ^ 64" and le: "length fetched \<le> unat (totalRepos ?m1)"
    using n64 by simp_all
  have "settingsCounted (0 + length fetched) ?m"
    unfolding orchestrated_def
    by (rule settingsCounted_foldl_settings [OF settingsCounted_processPages lt])
  moreover have "totalRepos ?m = totalRepos ?m1"
    by (simp add: orchestrated_def totalRepos_foldl_settings)
  ultimately show "settingsCounted (unat (totalRepos ?m)) ?m"
    using le by (simp add: settingsCounted_def)
qed

lemma counted_signed:
  assumes n: "n < 2 ^ 63"
    and sc: "scopeCounted n m"
    and st: "settingsCounted (unat (totalRepos m)) m"
  shows "sint (totalRepos m) + sint (excludedRepos m) = int n
     \<and> sint (branchProtectionEnabled m) \<le> sint (totalRepos m)
     \<and> sint (requirePullRequest m) \<le> sint (totalRepos m)
     \<and> sint (requireApprovingReviews m) \<le> sint (totalRepos m)
     \<and> sint (dismissStaleReviews m) \<le> sint (totalRepos m)
     \<and> sint (requireCodeOwnerReviews m) \<le> sint (totalRepos m)
     \<and> sint (requireStatusChecks m) \<le> sint (totalRepos m)
     \<and> sint (requireSignedCommits m) \<le> sint (totalRepos m)
     \<and> sint (enforceAdmins m) \<le> sint (totalRepos m)
     \<and> sint (vulnerabilityAlertsEnabled m) \<le> sint (totalRepos m)
     \<and> sint (codeScanningEnabled m) \<le> sint (totalRepos m)
     \<and> sint (secretScanningEnabled m) \<le> sint (totalRepos m)
     \<and> sint (secretScanningPushProtection m) \<le> sint (totalRepos m)
     \<and> sint (dependabotSecurityUpdatesEnabled m) \<le> sint (totalRepos m)"
proof -
  have tot: "unat (totalRepos m) + unat (excludedRepos m) = n"
    using sc by (simp add: scopeCounted_def)
  then have t: "unat (totalRepos m) < 2 ^ 63" and e: "unat (excludedRepos m) < 2 ^ 63"
    using n by simp_all
  have conv: "sint x = int (unat x)" if "unat x \<le> unat (totalRepos m)" for x :: go_int
    using that t by (intro sint_unat) simp
  have le: "sint x \<le> sint (totalRepos m)" if "unat x \<le> unat (totalRepos m)" for x :: go_int
    unfolding conv [OF that] sint_unat [OF t] using that by (simp only: of_nat_le_iff)
  have "sint (totalRepos m) + sint (excludedRepos m) = int (unat (totalRepos m) + unat (excludedRepos m))"
    unfolding sint_unat [OF t] sint_unat [OF e] by (simp only: of_nat_add)
  then have "sint (totalRepos m) + sint (excludedRepos m) = int n"
    by (simp only: tot)
  then show ?thesis
    using sc st by (simp add: scopeCounted_def settingsCounted_def le)
qed

text \<open>
  Claim C2.  In the state that the orchestrated sequence reaches (\<open>processRepository\<close>
  once for each repository of each page, then \<open>countSecuritySettings\<close> at most once
  for each accepted repository), the included count plus the excluded count is the number
  of repositories seen, and each of the seven branch-protection counters and of the five
  security-feature counters is at most the included count.  The counts are read as signed
  64-bit integers; fewer than \<open>2 ^ 63\<close> repositories are seen.  By
  \<open>fetchSecuritySettings_orchestrated\<close> the state that \<open>Collect\<close> reports
  from is such a state.
\<close>

theorem orchestrated_invariant:
  assumes "length (concat pages) < 2 ^ 63"
    and "length fetched \<le> length (repos (processPages inc exc newMetricsAggregator pages))"
    and "m = orchestrated inc exc pages fetched"
  shows "sint (totalRepos m) + sint (excludedRepos m) = int (length (concat pages))
     \<and> sint (branchProtectionEnabled m) \<le> sint (totalRepos m)
     \<and> sint (requirePullRequest m) \<le> sint (totalRepos m)
     \<and> sint (requireApprovingReviews m) \<le> sint (totalRepos m)
     \<and> sint (dismissStaleReviews m) \<le> sint (totalRepos m)
     \<and> sint (requireCodeOwnerReviews m) \<le> sint (totalRepos m)
     \<and> sint (requireStatusChecks m) \<le> sint (totalRepos m)
     \<and> sint (requireSignedCommits m) \<le> sint (totalRepos m)
     \<and> sint (enforceAdmins m) \<le> sint (totalRepos m)
     \<and> sint (vulnerabilityAlertsEnabled m) \<le> sint (totalRepos m)
     \<and> sint (codeScanningEnabled m) \<le> sint (totalRepos m)
     \<and> sint (secretScanningEnabled m) \<le> sint (totalRepos m)
     \<and> sint (secretScanningPushProtection m) \<le> sint (totalRepos m)
     \<and> sint (dependabotSecurityUpdatesEnabled m) \<le> sint (totalRepos m)"
  unfolding assms(3)
  by (rule counted_signed [OF assms(1) orchestrated_counted [OF assms(1) assms(2)]])

theorem orchestrated_invariant_witness:
  "length (concat examplePages) < 2 ^ 63
   \<and> length [exampleSettings True False]
       \<le> length (repos (processPages [''prod-*''] [] newMetricsAggregator examplePages))
   \<and> sint (totalRepos (orchestrated [''prod-*''] [] examplePages [exampleSettings True False]))
     + sint (excludedRepos (orchestrated [''prod-*''] [] examplePages [exampleSettings True False]))
     = 3
   \<and> sint (codeScanningEnabled (orchestrated [''prod-*''] [] examplePages [exampleSettings True False]))
     \<le> sint (totalRepos (orchestrated [''prod-*''] [] examplePages [exampleSettings True False]))"
proof -
  have a: "length (concat examplePages) < 2 ^ 63"
    by (simp add: examplePages_def)
  have b: "length [exampleSettings True False]
       \<le> length (repos (processPages [''prod-*''] [] newMetricsAggregator examplePages))"
    by code_simp
  have c: "int (length (concat examplePages)) = 3"
    by (simp add: examplePages_def)
  from orchestrated_invariant [OF a b refl] a b c show ?thesis by simp
qed

lemma exampleMetrics_eq:
  "exampleMetrics =
     newMetricsAggregator
       \<lparr>totalRepos := 3,
        repos := [\<lparr>owner = ''acme'', name = ''prod-a''\<rparr>, \<lparr>owner = ''acme'', name = ''prod-b''\<rparr>,
                  \<lparr>owner = ''acme'', name = ''test-c''\<rparr>],
        vulnerabilityAlertsEnabled := 1, codeScanningEnabled := 1, secretScanningEnabled := 1,
        secretScanningPushProtection := 1, dependabotSecurityUpdatesEnabled := 2\<rparr>"
  by (simp add: exampleMetrics_def orchestrated_def processPages_def processPage_def
      processRepository_def countBranchProtection_def countSecuritySettings_def
      ShouldIncludeRepo_def MatchesPattern_def exampleRepository_def exampleSettings_def
      newMetricsAggregator_def Let_def)

lemma sint_add_in_range:
  fixes a b :: go_int
  assumes "- (2 ^ 63) \<le> sint a + sint b" "sint a + sint b < 2 ^ 63"
  shows "sint (a + b) = sint a + sint b"
  using assms by (simp add: sint_word_ariths signed_take_bit_int_eq_self)

text \<open>
  The divisor of \<open>securityFeaturesCoverage\<close> is \<open>totalRepos * 5\<close>, the guard is
  on \<open>totalRepos\<close>.  Since 5 is odd the product is zero only if \<open>totalRepos\<close>
  is: the division never panics.
\<close>

lemma coverage_divisor_nonzero:
  fixes t :: go_int
  assumes "t \<noteq> 0"
  shows "t * NumSecurityFeatures \<noteq> 0"
proof
  assume z: "t * NumSecurityFeatures = 0"
  have inv: "(5 :: go_int) * 14757395258967641293 = 1" by simp
  have "t = t * (5 * 14757395258967641293)" by (simp only: inv mult_1_right)
  also have "\<dots> = (t * NumSecurityFeatures) * 14757395258967641293"
    by (simp only: NumSecurityFeatures_def mult.assoc)
  also have "\<dots> = 0" by (simp only: z mult_zero_left)
  finally show False using assms by simp
qed

lemma securityFeaturesCoverage_floor:
  assumes t: "0 < sint (totalRepos m)" "sint (totalRepos m) * 5 < 2 ^ 63"
    and nonneg: "0 \<le> sint (vulnerabilityAlertsEnabled m)" "0 \<le> sint (codeScanningEnabled m)"
      "0 \<le> sint (secretScanningEnabled m)" "0 \<le> sint (secretScanningPushProtection m)"
      "0 \<le> sint (dependabotSecurityUpdatesEnabled m)"
    and fits: "(sint (vulnerabilityAlertsEnabled m) + sint (codeScanningEnabled m) +
                sint (secretScanningEnabled m) + sint (secretScanningPushProtection m) +
                sint (dependabotSecurityUpdatesEnabled m)) * 100 < 2 ^ 63"
  shows "sint (securityFeaturesCoverage m) =
           ((sint (vulnerabilityAlertsEnabled m) + sint (codeScanningEnabled m) +
             sint (secretScanningEnabled m) + sint (secretScanningPushProtection m) +
             sint (dependabotSecurityUpdatesEnabled m)) * 100)
           div (sint (totalRepos m) * 5)"
proof -
  let ?v = "vulnerabilityAlertsEnabled m" and ?c = "codeScanningEnabled m"
    and ?s = "secretScanningEnabled m" and ?p = "secretScanningPushProtection m"
    and ?d = "dependabotSecurityUpdatesEnabled m"
  define S where "S = sint ?v + sint ?c + sint ?s + sint ?p + sint ?d"
  define W where "W = ?v + ?c + ?s + ?p + ?d"
  have S0: "0 \<le> S" using nonneg by (simp add: S_def)
  have S100: "S * 100 < 2 ^ 63" using fits by (simp add: S_def)
  have S: "S < 2 ^ 63" using S0 S100 by simp
  have s1: "sint (?v + ?c) = sint ?v + sint ?c"
    using nonneg S by (intro sint_add_in_range) (simp_all add: S_def)
  have s2: "sint (?v + ?c + ?s) = sint ?v + sint ?c + sint ?s"
    using nonneg S s1 by (subst sint_add_in_range) (simp_all add: S_def)
  have s3: "sint (?v + ?c + ?s + ?p) = sint ?v + sint ?c + sint ?s + sint ?p"
    using nonneg S s2 by (subst sint_add_in_range) (simp_all add: S_def)
  have s4: "sint W = S"
    unfolding W_def using nonneg S s3 by (subst sint_add_in_range) (simp_all add: S_def)
  have num: "sint (W * 100) = S * 100"
    using S0 S100 s4 sint_mult_in_range [of W 100] by simp
  have den: "sint (totalRepos m * 5) = sint (totalRepos m) * 5"
    using t sint_mult_in_range [of "totalRepos m" 5] by simp
  have nz: "totalRepos m \<noteq> 0" using t by auto
  have n0: "0 \<le> sint (W * 100)" unfolding num using S0 by simp
  have d0: "0 < sint (totalRepos m * 5)" unfolding den using t by simp
  have "sint (go_quot (W * 100) (totalRepos m * 5))
        = sint (W * 100) div sint (totalRepos m * 5)"
    by (rule go_quot_nonneg [OF n0 d0])
  then have "sint (go_quot (W * 100) (totalRepos m * 5)) = (S * 100) div (sint (totalRepos m) * 5)"
    by (simp only: num den)
  moreover have "securityFeaturesCoverage m = go_quot (W * 100) (totalRepos m * 5)"
    using nz by (simp only: securityFeaturesCoverage_def MaxPercentage_def
        NumSecurityFeatures_def Let_def W_def if_False)
  ultimately show ?thesis by (simp only: S_def)
qed

lemma exampleMetrics_coverage:
  "securityFeaturesCoverage exampleMetrics = 40" "averageOfPercentages exampleMetrics = 39"
  by (simp_all add: exampleMetrics_eq securityFeaturesCoverage_def averageOfPercentages_def
      toSecurityFeatures_def percent_def go_quot_def newMetricsAggregator_def
      MaxPercentage_def NumSecurityFeatures_def signed_divide_int_def Let_def)

lemma orchestrated_coverage:
  assumes n: "length (concat pages) \<le> 18446744073709551"
    and k: "length fetched \<le> length (repos (processPages inc exc newMetricsAggregator pages))"
    and m: "m = orchestrated inc exc pages fetched"
    and pos: "totalRepos m \<noteq> 0"
  shows "sint (securityFeaturesCoverage m) =
           ((sint (vulnerabilityAlertsEnabled m) + sint (codeScanningEnabled m) +
             sint (secretScanningEnabled m) + sint (secretScanningPushProtection m) +
             sint (dependabotSecurityUpdatesEnabled m)) * 100)
           div (sint (totalRepos m) * 5)"
proof -
  let ?n = "length (concat pages)"
  have n63: "?n < 2 ^ 63" using n by simp
  have sc: "scopeCounted ?n m" and st: "settingsCounted (unat (totalRepos m)) m"
    unfolding m by (rule orchestrated_counted [OF n63 k])+
  have tn: "unat (totalRepos m) \<le> ?n" using sc by (simp add: scopeCounted_def)
  have conv: "sint x = int (unat x)" if "unat x \<le> unat (totalRepos m)" for x :: go_int
    using that tn n63 by (intro sint_unat) simp
  have bound: "0 \<le> sint x \<and> sint x \<le> 18446744073709551"
    if "unat x \<le> unat (totalRepos m)" for x :: go_int
  proof -
    have "unat x \<le> 18446744073709551" using that tn n by simp
    then have "int (unat x) \<le> int 18446744073709551" by (simp only: of_nat_le_iff)
    then show ?thesis unfolding conv [OF that] by simp
  qed
  have t: "0 \<le> sint (totalRepos m) \<and> sint (totalRepos m) \<le> 18446744073709551"
    by (rule bound) simp
  have "sint (totalRepos m) \<noteq> 0" using pos by (simp add: signed_eq_0_iff)
  with t have t0: "0 < sint (totalRepos m)" by simp
  have v: "0 \<le> sint (vulnerabilityAlertsEnabled m) \<and> sint (vulnerabilityAlertsEnabled m) \<le> 18446744073709551"
    using sc by (intro bound) (simp add: scopeCounted_def)
  have c: "0 \<le> sint (codeScanningEnabled m) \<and> sint (codeScanningEnabled m) \<le> 18446744073709551"
    using st by (intro bound) (simp add: settingsCounted_def)
  have s: "0 \<le> sint (secretScanningEnabled m) \<and> sint (secretScanningEnabled m) \<le> 18446744073709551"
    using st by (intro bound) (simp add: settingsCounted_def)
  have p: "0 \<le> sint (secretScanningPushProtection m) \<and> sint (secretScanningPushProtection m) \<le> 18446744073709551"
    using st by (intro bound) (simp add: settingsCounted_def)
  have d: "0 \<le> sint (dependabotSecurityUpdatesEnabled m) \<and> sint (dependabotSecurityUpdatesEnabled m) \<le> 18446744073709551"
    using st by (intro bound) (simp add: settingsCounted_def)
  show ?thesis
    using t t0 v c s p d by (intro securityFeaturesCoverage_floor) simp_all
qed

text \<open>
  Claim C3.  \<open>securityFeaturesCoverage\<close> is 0 when the included count is 0.  When
  the included count is positive it is the sum of the five security-feature counters times
  100, divided by five times the included count, truncated once: the floor of that
  quotient.  This holds in every state whose counters are counts (not negative) and where
  the sum times 100 and the included count times 5 fit the 64-bit integer; every state that
  the orchestrated sequence reaches from at most 18446744073709551 repositories is such a
  state.  It is not the average of the five truncated percentages: in
  \<open>exampleMetrics\<close> (three repositories, counters 1, 1, 1, 1 and 2) the coverage is
  40 and that average is 39.
\<close>

theorem securityFeaturesCoverage_single_truncation:
  "(totalRepos m = 0 \<longrightarrow> securityFeaturesCoverage m = 0)
   \<and> (0 < sint (totalRepos m) \<and> sint (totalRepos m) * 5 < 2 ^ 63
      \<and> 0 \<le> sint (vulnerabilityAlertsEnabled m) \<and> 0 \<le> sint (codeScanningEnabled m)
      \<and> 0 \<le> sint (secretScanningEnabled m) \<and> 0 \<le> sint (secretScanningPushProtection m)
      \<and> 0 \<le> sint (dependabotSecurityUpdatesEnabled m)
      \<and> (sint (vulnerabilityAlertsEnabled m) + sint (codeScanningEnabled m) +
          sint (secretScanningEnabled m) + sint (secretScanningPushProtection m) +
          sint (dependabotSecurityUpdatesEnabled m)) * 100 < 2 ^ 63
      \<longrightarrow> sint (securityFeaturesCoverage m) =
            ((sint (vulnerabilityAlertsEnabled m) + sint (codeScanningEnabled m) +
              sint (secretScanningEnabled m) + sint (secretScanningPushProtection m) +
              sint (dependabotSecurityUpdatesEnabled m)) * 100)
            div (sint (totalRepos m) * 5))
   \<and> (length (concat pages) \<le> 18446744073709551
      \<and> length fetched \<le> length (repos (processPages inc exc newMetricsAggregator pages))
      \<and> m' = orchestrated inc exc pages fetched \<and> totalRepos m' \<noteq> 0
      \<longrightarrow> sint (securityFeaturesCoverage m') =
            ((sint (vulnerabilityAlertsEnabled m') + sint (codeScanningEnabled m') +
              sint (secretScanningEnabled m') + sint (secretScanningPushProtection m') +
              sint (dependabotSecurityUpdatesEnabled m')) * 100)
            div (sint (totalRepos m') * 5))
   \<and> securityFeaturesCoverage exampleMetrics = 40
   \<and> averageOfPercentages exampleMetrics = 39"
proof -
  have zero: "totalRepos m = 0 \<longrightarrow> securityFeaturesCoverage m = 0"
    by (simp add: securityFeaturesCoverage_def)
  show ?thesis
    using zero securityFeaturesCoverage_floor [of m]
      orchestrated_coverage [of pages fetched inc exc m'] exampleMetrics_coverage
    by blast
qed

theorem securityFeaturesCoverage_single_truncation_witness:
  "totalRepos newMetricsAggregator = 0 \<and> securityFeaturesCoverage newMetricsAggregator = 0
   \<and> 0 < sint (totalRepos exampleMetrics) \<and> sint (totalRepos exampleMetrics) * 5 < 2 ^ 63
   \<and> totalRepos exampleMetrics \<noteq> 0
   \<and> sint (securityFeaturesCoverage exampleMetrics) = (1 + 1 + 1 + 1 + 2) * 100 div (3 * 5)
   \<and> sint (securityFeaturesCoverage exampleMetrics) = 40"
proof -
  let ?pages = "[[exampleRepository ''prod-a'' None True, exampleRepository ''prod-b'' None False],
                 [exampleRepository ''test-c'' None False]]"
  let ?fetched = "[exampleSettings True True, exampleSettings False True, exampleSettings False False]"
  have a: "length (concat ?pages) \<le> 18446744073709551" by simp
  have b: "length ?fetched \<le> length (repos (processPages [''*''] [] newMetricsAggregator ?pages))"
    by code_simp
  have c: "exampleMetrics = orchestrated [''*''] [] ?pages ?fetched"
    by (simp add: exampleMetrics_def)
  have d: "totalRepos exampleMetrics \<noteq> 0"
    by (simp add: exampleMetrics_eq newMetricsAggregator_def)
  note T = securityFeaturesCoverage_single_truncation
         [of newMetricsAggregator ?pages ?fetched "[''*'']" "[]" exampleMetrics]
  have z: "totalRepos newMetricsAggregator = 0"
    by (simp add: newMetricsAggregator_def)
  have "securityFeaturesCoverage newMetricsAggregator = 0"
    using T [THEN conjunct1] z by blast
  moreover have "sint (securityFeaturesCoverage exampleMetrics) =
           ((sint (vulnerabilityAlertsEnabled exampleMetrics) + sint (codeScanningEnabled exampleMetrics) +
             sint (secretScanningEnabled exampleMetrics) + sint (secretScanningPushProtection exampleMetrics) +
             sint (dependabotSecurityUpdatesEnabled exampleMetrics)) * 100)
           div (sint (totalRepos exampleMetrics) * 5)"
    using T [THEN conjunct2, THEN conjunct2, THEN conjunct1] a b c d by blast
  ultimately have "securityFeaturesCoverage newMetricsAggregator = 0"
    and "sint (securityFeaturesCoverage exampleMetrics) = (1 + 1 + 1 + 1 + 2) * 100 div (3 * 5)"
    by (simp_all add: exampleMetrics_eq newMetricsAggregator_def)
  then show ?thesis
    using d z by (simp add: exampleMetrics_eq newMetricsAggregator_def)
qed

section \<open>Properties of the pattern matcher\<close>

lemma regexSpecial_escapable: "c \<in> set regexSpecial \<Longrightarrow> escapable c"
  by (auto simp: regexSpecial_def escapable_def isalnum_def backslash_def)

lemma parse_pending: "noStar rest \<Longrightarrow> parse (Some a) rest = map_option ((#) (One a)) (parse None rest)"
  by (cases rest) (simp_all add: noStar_def)

lemma parse_writeChar:
  assumes "noStar rest"
  shows "parse None (writeChar c @ rest) = map_option ((#) (instOf c)) (parse None rest)"
proof -
  consider (star) "c = CHR ''*''" | (quest) "c = CHR ''?''"
    | (special) "c \<in> set regexSpecial" | (plain) "c \<noteq> CHR ''*''" "c \<noteq> CHR ''?''" "c \<notin> set regexSpecial"
    by blast
  then show ?thesis
  proof cases
    case star
    then show ?thesis by (simp add: writeChar_def instOf_def)
  next
    case quest
    then show ?thesis using assms
      by (simp add: writeChar_def instOf_def parse_pending)
  next
    case special
    then have ne: "c \<noteq> CHR ''*''" "c \<noteq> CHR ''?''"
      by (auto simp: regexSpecial_def backslash_def)
    have "parse None (backslash # c # rest) = parse (Some (Literal c)) rest"
      using regexSpecial_escapable [OF special] by (simp add: backslash_def)
    then show ?thesis using special ne assms
      by (simp add: writeChar_def instOf_def parse_pending)
  next
    case plain
    then have "c \<noteq> CHR ''^''" "c \<noteq> CHR ''$''" "c \<noteq> CHR ''.''" "c \<noteq> backslash" "c \<notin> set operators"
      by (auto simp: regexSpecial_def operators_def)
    then have "parse None (c # rest) = parse (Some (Literal c)) rest"
      by simp
    then show ?thesis using plain assms
      by (simp add: writeChar_def instOf_def parse_pending)
  qed
qed

lemma noStar_writeChar: "noStar (writeChar c @ rest)"
  by (simp add: writeChar_def noStar_def backslash_def)

lemma noStar_concat: "noStar rest \<Longrightarrow> noStar (concat (map writeChar p) @ rest)"
  by (cases p) (simp_all add: noStar_writeChar)

lemma parse_concat:
  "noStar rest \<Longrightarrow>
   parse None (concat (map writeChar p) @ rest) = map_option ((@) (map instOf p)) (parse None rest)"
proof (induction p)
  case Nil
  then show ?case by (simp add: option.map_ident)
next
  case (Cons c p)
  have "parse None (writeChar c @ (concat (map writeChar p) @ rest))
        = map_option ((#) (instOf c)) (parse None (concat (map writeChar p) @ rest))"
    using Cons.prems by (intro parse_writeChar noStar_concat)
  then show ?case using Cons by (simp add: option.map_comp comp_def)
qed

lemma Compile_regexPattern:
  "Compile (regexPattern p) = Some (BeginText # map instOf p @ [EndText])"
proof -
  have "noStar ''$''" by (simp add: noStar_def)
  from parse_concat [OF this, of p] show ?thesis
    by (simp add: Compile_def regexPattern_def)
qed

lemma MatchString_anchored: "MatchString (BeginText # rs) s = matchHere rs True s"
proof -
  have "MatchString (BeginText # rs) s = (\<exists>i \<in> set [0 ..< Suc (length s)]. i = 0 \<and> matchHere rs (i = 0) (drop i s))"
    unfolding MatchString_def list_ex_iff by simp
  also have "\<dots> = matchHere rs True s" by auto
  finally show ?thesis .
qed

lemma matchHere_glob:
  "newline \<notin> set s \<Longrightarrow> matchHere (map instOf p @ [EndText]) b s = glob p s"
proof (induction p s arbitrary: b rule: glob.induct)
  case (1 s)
  then show ?case by simp
next
  case (2 p ps)
  then show ?case by (simp add: instOf_def)
next
  case (3 p ps x xs)
  then show ?case by (auto simp: instOf_def)
qed

lemma MatchesPattern_glob:
  assumes "newline \<notin> set nm"
  shows "MatchesPattern nm pattern = glob pattern nm"
proof (cases "pattern = ''*''")
  case True
  have "glob ''*'' s" for s by (induction s) simp_all
  with True show ?thesis by (simp add: MatchesPattern_def)
next
  case False
  then show ?thesis
    using assms by (simp add: MatchesPattern_def Compile_regexPattern MatchString_anchored matchHere_glob)
qed

lemma matchHere_globLine: "matchHere (map instOf p @ [EndText]) b s = globLine p s"
proof (induction p s arbitrary: b rule: globLine.induct)
  case (1 s)
  then show ?case by simp
next
  case (2 p ps)
  then show ?case by (simp add: instOf_def)
next
  case (3 p ps x xs)
  then show ?case by (auto simp: instOf_def)
qed

lemma MatchesPattern_globLine:
  "MatchesPattern nm pattern = (pattern = ''*'' \<or> globLine pattern nm)"
  by (simp add: MatchesPattern_def Compile_regexPattern MatchString_anchored matchHere_globLine)

lemma globLine_glob: "newline \<notin> set s \<Longrightarrow> globLine p s = glob p s"
  by (induction p s rule: glob.induct) auto

lemma matchesAny_iff: "matchesAny repoName patterns = (\<exists>p \<in> set patterns. MatchesPattern repoName p)"
  by (induction patterns) simp_all

lemma ShouldIncludeRepo_iff:
  "ShouldIncludeRepo repoName inc exc =
     ((\<forall>p \<in> set exc. \<not> MatchesPattern repoName p) \<and> (\<exists>p \<in> set inc. MatchesPattern repoName p))"
  by (simp add: ShouldIncludeRepo_def matchesAny_iff)

text \<open>
  Claim C6.  \<open>ShouldIncludeRepo\<close> is false whenever the name matches at least one
  exclude pattern, whatever the include patterns are; if it matches no exclude pattern, it
  is true iff the name matches at least one include pattern; with an empty list of include
  patterns it is false for every name.
\<close>

theorem ShouldIncludeRepo_precedence:
  "((\<exists>p \<in> set excludePatterns. MatchesPattern repoName p) \<longrightarrow>
      \<not> ShouldIncludeRepo repoName includePatterns excludePatterns)
   \<and> ((\<forall>p \<in> set excludePatterns. \<not> MatchesPattern repoName p) \<longrightarrow>
      ShouldIncludeRepo repoName includePatterns excludePatterns
      = (\<exists>p \<in> set includePatterns. MatchesPattern repoName p))
   \<and> \<not> ShouldIncludeRepo repoName [] excludePatterns"
  by (simp add: ShouldIncludeRepo_iff)

theorem ShouldIncludeRepo_precedence_witness:
  "MatchesPattern ''x-archive'' ''*'' \<and> MatchesPattern ''x-archive'' ''*-archive''
   \<and> \<not> ShouldIncludeRepo ''x-archive'' [''*''] [''*-archive'']
   \<and> \<not> MatchesPattern ''frontend-app'' ''*-archive''
   \<and> MatchesPattern ''frontend-app'' ''frontend-*''
   \<and> ShouldIncludeRepo ''frontend-app'' [''frontend-*'', ''backend-*''] [''*-archive'']
   \<and> \<not> ShouldIncludeRepo ''frontend-app'' [] []"
proof -
  have a: "MatchesPattern ''x-archive'' ''*''" "MatchesPattern ''x-archive'' ''*-archive''"
    "\<not> MatchesPattern ''frontend-app'' ''*-archive''"
    "MatchesPattern ''frontend-app'' ''frontend-*''"
    by code_simp+
  from ShouldIncludeRepo_precedence [of "[''*-archive'']" "''x-archive''" "[''*'']"]
    ShouldIncludeRepo_precedence [of "[''*-archive'']" "''frontend-app''" "[''frontend-*'', ''backend-*'']"]
    ShouldIncludeRepo_precedence [of "[]" "''frontend-app''" "[]"] a
  show ?thesis by simp
qed

text \<open>
  The translated pattern always compiles, the pattern \<open>*\<close> matches every name, and
  on a name without a newline \<open>MatchesPattern\<close> is the glob relation
  (\<open>MatchesPattern_glob\<close> above); on every name it is \<open>globLine\<close>
  (\<open>MatchesPattern_globLine\<close>).
\<close>

lemma MatchesPattern_wildcard: "MatchesPattern nm ''*''"
  by (simp add: MatchesPattern_def)

lemma Compile_never_fails: "Compile (regexPattern pattern) \<noteq> None"
  by (simp add: Compile_regexPattern)

text \<open>
  Claim C7 fails on names that contain a newline.  The translation turns \<open>*\<close> into
  \<open>.*\<close> and \<open>?\<close> into a dot, and the dot of Go's regexp package does not
  match a newline: the name \<open>a\nb\<close> does not match the pattern \<open>a*b\<close>,
  although the glob relation holds, and although the pattern \<open>*\<close> alone accepts the
  same name.  Likewise the name that is one newline does not match the pattern \<open>?\<close>.
\<close>

theorem MatchesPattern_newline:
  "\<not> MatchesPattern [CHR ''a'', newline, CHR ''b''] ''a*b''
   \<and> glob ''a*b'' [CHR ''a'', newline, CHR ''b'']
   \<and> MatchesPattern [CHR ''a'', newline, CHR ''b''] ''*''
   \<and> \<not> MatchesPattern [newline] ''?''
   \<and> glob ''?'' [newline]"
  by code_simp

section \<open>Properties of the collector\<close>

lemma example_matches:
  "MatchesPattern ''prod-a'' ''prod-*''" "MatchesPattern ''prod-b'' ''prod-*''"
  "\<not> MatchesPattern ''test-c'' ''prod-*''"
  by code_simp+

lemma exampleCollect: "Collect exampleClient exampleConfig exampleTime 0 = (Inr exampleReport, 5)"
  by code_simp

lemma countSecuritySettings_allDisabled: "countSecuritySettings m allDisabled = m"
  by (simp add: countSecuritySettings_def allDisabled_def)

lemma fetchSettingsLoop_degraded:
  "fetchSettingsLoop (degraded client) rs m s = fetchSettingsLoop client rs m s"
  by (induction rs arbitrary: m s)
     (auto simp: degraded_def countSecuritySettings_allDisabled split: prod.splits sum.splits)

lemma Collect_degraded: "Collect (degraded client) config now s = Collect client config now s"
proof -
  have other:
    "FetchOrgSecurity (degraded client) = FetchOrgSecurity client"
    "FetchRepositories (degraded client) = FetchRepositories client"
    by (simp_all add: degraded_def)
  show ?thesis
    by (simp only: Collect_def fetchSecuritySettings_def fetchSettingsLoop_degraded other)
qed

lemma Collect_fails_iff:
  "isl (fst (Collect client config now s)) =
     (Organization config = []
      \<or> isl (fst (FetchOrgSecurity client (Organization config) s))
      \<or> snd (fst (FetchRepositories client (Organization config)
                    (snd (FetchOrgSecurity client (Organization config) s)))) \<noteq> None)"
  by (auto simp: Collect_def Let_def split: prod.splits sum.splits option.splits)

lemma Collect_succeeds:
  assumes "Organization config \<noteq> []"
    and "FetchOrgSecurity client (Organization config) s = (Inr orgSecurity, s1)"
    and "FetchRepositories client (Organization config) s1 = ((pages, None), s2)"
    and "fetchSecuritySettings client
           (processPages (effectiveIncludePatterns config) (ExcludePatterns config)
              newMetricsAggregator pages) s2 = (metrics, s3)"
  shows "Collect client config now s =
           (Inr (populatePosture config (NewOrgPosture (Organization config) now) orgSecurity
                   metrics (effectiveIncludePatterns config)), s3)"
  using assms by (simp add: Collect_def Let_def effectiveIncludePatterns_def)

lemma Collect_report:
  assumes "Collect client config now s = (Inr report, s')"
  shows "\<exists>orgSecurity s1 pages s2.
           FetchOrgSecurity client (Organization config) s = (Inr orgSecurity, s1)
         \<and> FetchRepositories client (Organization config) s1 = ((pages, None), s2)
         \<and> report = populatePosture config (NewOrgPosture (Organization config) now) orgSecurity
                 (fst (fetchSecuritySettings client
                    (processPages (effectiveIncludePatterns config) (ExcludePatterns config)
                       newMetricsAggregator pages) s2))
                 (effectiveIncludePatterns config)"
  using assms
  by (auto simp: Collect_def Let_def effectiveIncludePatterns_def
      split: if_splits prod.splits sum.splits option.splits)

lemma fetchSettingsLoop_unchanged:
  "totalRepos (fst (fetchSettingsLoop client rs m s)) = totalRepos m"
  "excludedRepos (fst (fetchSettingsLoop client rs m s)) = excludedRepos m"
  "repos (fst (fetchSettingsLoop client rs m s)) = repos m"
  "vulnerabilityAlertsEnabled (fst (fetchSettingsLoop client rs m s)) = vulnerabilityAlertsEnabled m"
  "toBranchProtectionRules (fst (fetchSettingsLoop client rs m s)) = toBranchProtectionRules m"
  "branchProtectionEnabled (fst (fetchSettingsLoop client rs m s)) = branchProtectionEnabled m"
  by (induction client rs m s rule: fetchSettingsLoop.induct;
      simp add: countSecuritySettings_eq toBranchProtectionRules_def split: prod.splits sum.splits)+

lemma fetchSettingsLoop_failure:
  assumes "FetchSecuritySettings client (owner repo) (name repo) s = (Inl err, s')"
  shows "fetchSettingsLoop client (repo # rest) m s = fetchSettingsLoop client rest m s'"
  using assms by simp

text \<open>
  Claim C5, as amended.  \<open>Collect\<close> returns an error, and no report, iff the
  organization name is empty, or the fetch of the organization's security settings fails,
  or the enumeration of the repositories fails.  A failure to fetch the settings of one
  repository is never returned: the loop goes on with the metrics unchanged, the included
  count stays what it was, and the whole result of \<open>Collect\<close> is the one it has
  with the client that answers "every feature disabled" in place of each such failure.
\<close>

theorem Collect_error_handling:
  "isl (fst (Collect client config now s)) =
     (Organization config = []
      \<or> isl (fst (FetchOrgSecurity client (Organization config) s))
      \<or> snd (fst (FetchRepositories client (Organization config)
                    (snd (FetchOrgSecurity client (Organization config) s)))) \<noteq> None)
   \<and> Collect (degraded client) config now s = Collect client config now s
   \<and> (\<forall>repo rest m s' err.
         FetchSecuritySettings client (owner repo) (name repo) s = (Inl err, s') \<longrightarrow>
         fetchSettingsLoop client (repo # rest) m s = fetchSettingsLoop client rest m s')
   \<and> totalRepos (fst (fetchSecuritySettings client m s)) = totalRepos m"
  using Collect_fails_iff [of client config now s] Collect_degraded [of client config now s]
    fetchSettingsLoop_unchanged(1) [of client "repos m" m s]
  by (simp add: fetchSecuritySettings_def)

theorem Collect_error_handling_witness:
  "FetchSecuritySettings exampleClient ''acme'' ''prod-b'' 4 = (Inl (Error ''connection reset''), 5)
   \<and> Collect exampleClient exampleConfig exampleTime 0 = (Inr exampleReport, 5)
   \<and> Collect (degraded exampleClient) exampleConfig exampleTime 0 = (Inr exampleReport, 5)
   \<and> \<not> isl (fst (Collect exampleClient exampleConfig exampleTime 0))"
proof -
  have f: "FetchSecuritySettings exampleClient ''acme'' ''prod-b'' 4 = (Inl (Error ''connection reset''), 5)"
    by (simp add: exampleClient_def)
  from Collect_error_handling [of exampleClient exampleConfig exampleTime 0] exampleCollect f
  show ?thesis by simp
qed

text \<open>
  Claim C5 as stated fails for an empty organization name: \<open>Collect\<close> returns an
  error although neither fetch fails.
\<close>

theorem Collect_error_counterexample:
  "isl (fst (Collect exampleClient (exampleConfig\<lparr>Organization := []\<rparr>) exampleTime 0))
   \<and> \<not> isl (fst (FetchOrgSecurity exampleClient [] 0))
   \<and> snd (fst (FetchRepositories exampleClient [] (snd (FetchOrgSecurity exampleClient [] 0)))) = None"
  by (simp add: Collect_def exampleClient_def exampleConfig_def Client_FetchOrgSecurity_def
      fetchOrgTwoFactorREST_def StatusOK_def)

lemma Client_FetchOrgSecurity_eq:
  "Client_FetchOrgSecurity reply =
     Inr \<lparr>TwoFactorRequired =
            (case reply of
               TransportError err \<Rightarrow> None
             | Response status body \<Rightarrow>
                 if status = StatusOK then (case body of None \<Rightarrow> None | Some field \<Rightarrow> field)
                 else None)\<rparr>"
  by (simp add: Client_FetchOrgSecurity_def fetchOrgTwoFactorREST_def
      split: http_result.split option.split)

lemma populatePosture_fields:
  "two_factor_required (access_control (populatePosture config p orgSecurity metrics inc))
     = TwoFactorRequired orgSecurity"
  "scope (populatePosture config p orgSecurity metrics inc) =
     \<lparr>include_patterns = inc, exclude_patterns = ExcludePatterns config,
      repositories_coverage =
        percent (totalRepos metrics) (totalRepos metrics + excludedRepos metrics)\<rparr>"
  "posture (populatePosture config p orgSecurity metrics inc) =
     \<lparr>branch_protection_coverage = percent (branchProtectionEnabled metrics) (totalRepos metrics),
      security_features_coverage = securityFeaturesCoverage metrics\<rparr>"
  "branch_protection_rules (populatePosture config p orgSecurity metrics inc)
     = toBranchProtectionRules metrics"
  "security_features (populatePosture config p orgSecurity metrics inc)
     = toSecurityFeatures metrics"
  by (simp_all add: populatePosture_def Let_def)

text \<open>
  Claim C8.  \<open>(*Client).FetchOrgSecurity\<close> never returns an error: where the REST
  call fails in transport, is answered with another status than 200 (permission denied is
  403), or its body does not decode or lacks the field, \<open>TwoFactorRequired\<close> is
  \<open>nil\<close>; otherwise it is the value of the field.  \<open>Collect\<close> copies
  \<open>TwoFactorRequired\<close>, \<open>nil\<close> or not, to
  \<open>access_control.two_factor_required\<close> of the report, and every other section of
  the report is computed from the metrics of the repositories.
\<close>

theorem two_factor_propagated:
  "Client_FetchOrgSecurity reply =
     Inr \<lparr>TwoFactorRequired =
            (case reply of
               TransportError err \<Rightarrow> None
             | Response status body \<Rightarrow>
                 if status = StatusOK then (case body of None \<Rightarrow> None | Some field \<Rightarrow> field)
                 else None)\<rparr>
   \<and> (Organization config \<noteq> []
      \<and> FetchOrgSecurity client (Organization config) s = (Inr orgSecurity, s1)
      \<and> FetchRepositories client (Organization config) s1 = ((pages, None), s2)
      \<and> fetchSecuritySettings client
           (processPages (effectiveIncludePatterns config) (ExcludePatterns config)
              newMetricsAggregator pages) s2 = (metrics, s3)
      \<longrightarrow> (\<exists>report.
             Collect client config now s = (Inr report, s3)
           \<and> two_factor_required (access_control report) = TwoFactorRequired orgSecurity
           \<and> scope report =
               \<lparr>include_patterns = effectiveIncludePatterns config,
                exclude_patterns = ExcludePatterns config,
                repositories_coverage =
                  percent (totalRepos metrics) (totalRepos metrics + excludedRepos metrics)\<rparr>
           \<and> posture report =
               \<lparr>branch_protection_coverage =
                  percent (branchProtectionEnabled metrics) (totalRepos metrics),
                security_features_coverage = securityFeaturesCoverage metrics\<rparr>
           \<and> branch_protection_rules report = toBranchProtectionRules metrics
           \<and> security_features report = toSecurityFeatures metrics))"
  using Collect_succeeds [of config client s orgSecurity s1 pages s2 metrics s3 now]
  by (simp add: Client_FetchOrgSecurity_eq populatePosture_fields)

theorem two_factor_propagated_witness:
  "Client_FetchOrgSecurity (Response 403 None) = Inr \<lparr>TwoFactorRequired = None\<rparr>
   \<and> Client_FetchOrgSecurity (Response 200 (Some (Some False))) = Inr \<lparr>TwoFactorRequired = Some False\<rparr>
   \<and> Client_FetchOrgSecurity (Response 200 (Some (Some True))) = Inr \<lparr>TwoFactorRequired = Some True\<rparr>
   \<and> Organization exampleConfig \<noteq> []
   \<and> FetchOrgSecurity exampleClient (Organization exampleConfig) 0 = (Inr \<lparr>TwoFactorRequired = None\<rparr>, 1)
   \<and> FetchRepositories exampleClient (Organization exampleConfig) 1 = ((examplePages, None), 3)
   \<and> Collect exampleClient exampleConfig exampleTime 0 = (Inr exampleReport, 5)
   \<and> two_factor_required (access_control exampleReport) = None
   \<and> vulnerability_alerts (security_features exampleReport) = 50"
proof -
  have a: "Organization exampleConfig \<noteq> []"
    by (simp add: exampleConfig_def)
  have b: "FetchOrgSecurity exampleClient (Organization exampleConfig) 0 = (Inr \<lparr>TwoFactorRequired = None\<rparr>, 1)"
    by (simp add: exampleClient_def Client_FetchOrgSecurity_eq StatusOK_def)
  have c: "FetchRepositories exampleClient (Organization exampleConfig) 1 = ((examplePages, None), 3)"
    by (simp add: exampleClient_def)
  obtain metrics s3 where d: "fetchSecuritySettings exampleClient
           (processPages (effectiveIncludePatterns exampleConfig) (ExcludePatterns exampleConfig)
              newMetricsAggregator examplePages) 3 = (metrics, s3)"
    by (cases "fetchSecuritySettings exampleClient
           (processPages (effectiveIncludePatterns exampleConfig) (ExcludePatterns exampleConfig)
              newMetricsAggregator examplePages) 3")
  from two_factor_propagated [of "Response 403 None" exampleConfig exampleClient 0
      "\<lparr>TwoFactorRequired = None\<rparr>" 1 examplePages 3 metrics s3 exampleTime] a b c d
  have "Client_FetchOrgSecurity (Response 403 None) = Inr \<lparr>TwoFactorRequired = None\<rparr>"
    and "\<exists>report. Collect exampleClient exampleConfig exampleTime 0 = (Inr report, s3)
           \<and> two_factor_required (access_control report) = None"
    by (auto simp: StatusOK_def)
  then have "Client_FetchOrgSecurity (Response 403 None) = Inr \<lparr>TwoFactorRequired = None\<rparr>"
    and "two_factor_required (access_control exampleReport) = None"
    using exampleCollect by auto
  moreover from two_factor_propagated [of "Response 200 (Some (Some False))", THEN conjunct1]
  have "Client_FetchOrgSecurity (Response 200 (Some (Some False))) = Inr \<lparr>TwoFactorRequired = Some False\<rparr>"
    by (simp add: StatusOK_def)
  moreover from two_factor_propagated [of "Response 200 (Some (Some True))", THEN conjunct1]
  have "Client_FetchOrgSecurity (Response 200 (Some (Some True))) = Inr \<lparr>TwoFactorRequired = Some True\<rparr>"
    by (simp add: StatusOK_def)
  moreover have "vulnerability_alerts (security_features exampleReport) = 50"
    by (simp add: exampleReport_def)
  ultimately show ?thesis using a b c exampleCollect by auto
qed

lemma processRepository_pull_request:
  "requirePullRequest m = requireApprovingReviews m \<Longrightarrow>
   requirePullRequest (processRepository m repo inc exc)
   = requireApprovingReviews (processRepository m repo inc exc)"
  by (simp add: processRepository_def countBranchProtection_eq Let_def split: option.split)

lemma call_pull_request:
  "requirePullRequest m = requireApprovingReviews m \<Longrightarrow>
   requirePullRequest (call m c) = requireApprovingReviews (call m c)"
  by (cases c) (simp_all add: processRepository_pull_request countSecuritySettings_eq)

lemma foldl_call_pull_request:
  "requirePullRequest m = requireApprovingReviews m \<Longrightarrow>
   requirePullRequest (foldl call m calls) = requireApprovingReviews (foldl call m calls)"
  by (induction calls arbitrary: m) (simp_all add: call_pull_request)

lemma runCalls_pull_request:
  "requirePullRequest (runCalls calls) = requireApprovingReviews (runCalls calls)"
  unfolding runCalls_def
  by (rule foldl_call_pull_request) (simp add: newMetricsAggregator_def)

lemma orchestrated_runCalls:
  "orchestrated inc exc pages fetched =
     runCalls (map (\<lambda>repo. ProcessRepository repo inc exc) (concat pages)
               @ map CountSecuritySettings fetched)"
  by (simp add: orchestrated_def runCalls_def processPages_concat foldl_map)

lemma rules_pull_request:
  "pull_request_required (toBranchProtectionRules (runCalls calls))
   = approving_reviews (toBranchProtectionRules (runCalls calls))"
  by (simp add: toBranchProtectionRules_def runCalls_pull_request)

lemma Collect_pull_request:
  assumes "Collect client config now s = (Inr report, s')"
  shows "pull_request_required (branch_protection_rules report)
         = approving_reviews (branch_protection_rules report)"
proof -
  from Collect_report [OF assms] obtain orgSecurity pages s2 where
    "report = populatePosture config (NewOrgPosture (Organization config) now) orgSecurity
                 (fst (fetchSecuritySettings client
                    (processPages (effectiveIncludePatterns config) (ExcludePatterns config)
                       newMetricsAggregator pages) s2))
                 (effectiveIncludePatterns config)"
    by blast
  then show ?thesis
    by (simp only: populatePosture_fields fetchSecuritySettings_orchestrated
        orchestrated_runCalls rules_pull_request)
qed

text \<open>
  Claim C10.  In the report made from any state of the aggregator, that is from any state
  that calls of \<open>processRepository\<close> and \<open>countSecuritySettings\<close> reach from
  the zero value, \<open>pull_request_required\<close> equals \<open>approving_reviews\<close>; so
  it is in every report that \<open>Collect\<close> returns.
\<close>

theorem pull_request_required_is_approving_reviews:
  "pull_request_required (toBranchProtectionRules (runCalls calls))
     = approving_reviews (toBranchProtectionRules (runCalls calls))
   \<and> (Collect client config now s = (Inr report, s') \<longrightarrow>
        pull_request_required (branch_protection_rules report)
        = approving_reviews (branch_protection_rules report))"
  using rules_pull_request [of calls] Collect_pull_request [of client config now s report s']
  by blast

theorem pull_request_required_is_approving_reviews_witness:
  "Collect exampleClient exampleConfig exampleTime 0 = (Inr exampleReport, 5)
   \<and> pull_request_required (branch_protection_rules exampleReport) = 100
   \<and> approving_reviews (branch_protection_rules exampleReport) = 100
   \<and> pull_request_required (toBranchProtectionRules exampleMetrics)
       = approving_reviews (toBranchProtectionRules exampleMetrics)"
proof -
  let ?calls =
    "map (\<lambda>repo. ProcessRepository repo [''*''] [])
       (concat [[exampleRepository ''prod-a'' None True, exampleRepository ''prod-b'' None False],
                [exampleRepository ''test-c'' None False]])
     @ map CountSecuritySettings
         [exampleSettings True True, exampleSettings False True, exampleSettings False False]"
  have m: "runCalls ?calls = exampleMetrics"
    unfolding exampleMetrics_def by (rule orchestrated_runCalls [symmetric])
  have r: "approving_reviews (branch_protection_rules exampleReport) = 100"
    by (simp add: exampleReport_def)
  from pull_request_required_is_approving_reviews
         [of ?calls exampleClient exampleConfig exampleTime 0 exampleReport 5]
  have "pull_request_required (toBranchProtectionRules exampleMetrics)
          = approving_reviews (toBranchProtectionRules exampleMetrics)"
    and "pull_request_required (branch_protection_rules exampleReport)
          = approving_reviews (branch_protection_rules exampleReport)"
    using exampleCollect by (simp_all only: m)
  then show ?thesis using exampleCollect r by simp
qed

end
